theory Spec2Isabelle
  imports Complex_Main "HOL-Library.Log_Nat"
begin

section \<open>JavaScript values\<close>

text \<open>
  The exporters build untyped object literals (\<open>any\<close>) and hand them to the
  serialisers; custom fields arrive as \<open>any\<close> too. A value is a JSON-like tree.
  An object is its list of properties in insertion order (keys distinct).
  A number is the rational value of an IEEE double; the arithmetic of the exporters
  rounds each result to the nearest double (\<open>toDouble\<close> below).
\<close>

datatype jsval =
    JUndefined
  | JNull
  | JBool bool
  | JNum rat
  | JStr string
  | JArr "jsval list"
  | JObj "(string \<times> jsval) list"

text \<open>JavaScript truthiness (\<open>NaN\<close> does not occur among rationals).\<close>

fun truthy :: "jsval \<Rightarrow> bool" where
  "truthy JUndefined = False"
| "truthy JNull = False"
| "truthy (JBool b) = b"
| "truthy (JNum n) = (n \<noteq> 0)"
| "truthy (JStr s) = (s \<noteq> [])"
| "truthy (JArr xs) = True"
| "truthy (JObj kvs) = True"

text \<open>\<open>a || b\<close>: the left operand when it is truthy, the right one otherwise.\<close>

definition jsOr :: "jsval \<Rightarrow> jsval \<Rightarrow> jsval" where
  "jsOr a b = (if truthy a then a else b)"

text \<open>\<open>typeof v === 'object'\<close> holds of \<open>null\<close>, arrays and objects.\<close>

fun typeofObject :: "jsval \<Rightarrow> bool" where
  "typeofObject JNull = True"
| "typeofObject (JArr xs) = True"
| "typeofObject (JObj kvs) = True"
| "typeofObject v = False"

fun isArray :: "jsval \<Rightarrow> bool" where
  "isArray (JArr xs) = True"
| "isArray v = False"

text \<open>
  Property read \<open>v.k\<close> on an object or an array. A missing property reads as
  \<open>undefined\<close>. The exporters read only \<open>value\<close>, \<open>name\<close> and
  \<open>displayName\<close> this way, none of which an array has.
\<close>

fun getProp :: "jsval \<Rightarrow> string \<Rightarrow> jsval" where
  "getProp (JObj kvs) k = (case map_of kvs k of None \<Rightarrow> JUndefined | Some v \<Rightarrow> v)"
| "getProp v k = JUndefined"

fun objKeys :: "jsval \<Rightarrow> string list" where
  "objKeys (JObj kvs) = map fst kvs"
| "objKeys v = []"

text \<open>Assignment \<open>o[k] = v\<close>: an existing key keeps its place, a new key goes last.\<close>

fun objSet :: "(string \<times> jsval) list \<Rightarrow> string \<Rightarrow> jsval \<Rightarrow> (string \<times> jsval) list" where
  "objSet [] k v = [(k, v)]"
| "objSet ((k', v') # kvs) k v = (if k' = k then (k, v) # kvs else (k', v') # objSet kvs k v)"

definition optStr :: "string option \<Rightarrow> jsval" where
  "optStr s = (case s of None \<Rightarrow> JUndefined | Some x \<Rightarrow> JStr x)"

text \<open>\<open>xs.join(sep)\<close> on an array of strings.\<close>

fun joinWith :: "string \<Rightarrow> string list \<Rightarrow> string" where
  "joinWith sep [] = []"
| "joinWith sep [x] = x"
| "joinWith sep (x # y # ys) = x @ sep @ joinWith sep (y # ys)"

definition startsWith :: "string \<Rightarrow> string \<Rightarrow> bool" where
  "startsWith s p = (take (length p) s = p)"

text \<open>\<open>s.toUpperCase()\<close>, on ASCII letters.\<close>

definition upperChar :: "char \<Rightarrow> char" where
  "upperChar c = (let n = (of_char c :: nat) in if 97 \<le> n \<and> n \<le> 122 then char_of (n - 32) else c)"

definition toUpperCase :: "string \<Rightarrow> string" where
  "toUpperCase s = map upperChar s"

text \<open>Decimal text of a count, as template literals print it.\<close>

fun natToString :: "nat \<Rightarrow> string" where
  "natToString n = (if n < 10 then [char_of (48 + n)] else natToString (n div 10) @ [char_of (48 + n mod 10)])"

declare natToString.simps [simp del]

text \<open>\<open>Math.round\<close>: the nearest integer, a half rounding up.\<close>

definition mathRound :: "rat \<Rightarrow> int" where
  "mathRound x = \<lfloor>x + 1 / 2\<rfloor>"

section \<open>Number arithmetic\<close>

text \<open>
  A JavaScript number is an IEEE 754 double: every \<open>+\<close>, \<open>-\<close>, \<open>*\<close> and
  \<open>/\<close> returns the exact result rounded to the nearest double, a tie going to the
  double with the even significand. \<open>toDouble\<close> is that rounding on the exact
  result: a positive \<open>x\<close> with \<open>2 ^ b \<le> x < 2 ^ (b + 1)\<close> is rounded to a multiple
  of \<open>2 ^ (b - 52)\<close>, so to 53 significant bits. Integers below \<open>2 ^ 53\<close> in
  magnitude, such as counts, array lengths and clock readings in milliseconds, are doubles
  themselves. The exponent range of doubles is not modelled: the quotients and products of
  such integers that the exporters compute stay far inside it.
\<close>

text \<open>The nearest integer, a half going to the even neighbour.\<close>

definition roundEven :: "rat \<Rightarrow> int" where
  "roundEven y =
     (let f = \<lfloor>y\<rfloor>
      in if y - of_int f < 1 / 2 then f
         else if 1 / 2 < y - of_int f then f + 1
         else if even f then f else f + 1)"

text \<open>The exponent \<open>b\<close> with \<open>2 ^ b \<le> x < 2 ^ (b + 1)\<close>, for a positive \<open>x\<close>.\<close>

definition binade :: "rat \<Rightarrow> int" where
  "binade x =
     (case quotient_of x of
        (p, q) \<Rightarrow> (let d = bitlen p - bitlen q in if 2 powi d \<le> x then d else d - 1))"

definition roundPositive :: "rat \<Rightarrow> rat" where
  "roundPositive x = of_int (roundEven (x / 2 powi (binade x - 52))) * 2 powi (binade x - 52)"

definition toDouble :: "rat \<Rightarrow> rat" where
  "toDouble x = (if x = 0 then 0 else if 0 < x then roundPositive x else - roundPositive (- x))"

section \<open>Errors\<close>

text \<open>
  A thrown value is an \<open>Error\<close> object with its message, or some other value.
  A function that can throw returns \<open>exn + 'a\<close>.
\<close>

datatype exn = Error string | Thrown jsval

fun mapE :: "('a \<Rightarrow> exn + 'b) \<Rightarrow> 'a list \<Rightarrow> exn + 'b list" where
  "mapE f [] = Inr []"
| "mapE f (x # xs) =
     (case f x of
        Inl e \<Rightarrow> Inl e
      | Inr y \<Rightarrow> (case mapE f xs of Inl e \<Rightarrow> Inl e | Inr ys \<Rightarrow> Inr (y # ys)))"

section \<open>The issue data model (types/jira-api)\<close>

text \<open>
  One record per interface, with the fields the exporters read. An optional field
  (\<open>f?: T\<close>) is an \<open>option\<close>; \<open>None\<close> is \<open>undefined\<close>.
\<close>

record JiraUser =
  user_name :: "string option"
  user_key :: "string option"
  user_displayName :: string
  user_emailAddress :: "string option"

record JiraProject =
  project_id :: string
  project_key :: string
  project_name :: string

record JiraIssueType =
  issuetype_id :: string
  issuetype_name :: string
  issuetype_subtask :: bool
  issuetype_iconUrl :: string

record JiraStatus =
  status_id :: string
  status_name :: string
  status_description :: string
  status_categoryName :: string

record JiraPriority =
  priority_id :: string
  priority_name :: string
  priority_iconUrl :: string

record JiraResolution =
  resolution_id :: string
  resolution_name :: string

record JiraComponent =
  component_id :: string
  component_name :: string
  component_description :: "string option"

record JiraVersion =
  version_id :: string
  version_name :: string
  version_releaseDate :: "string option"

record JiraComment =
  comment_id :: string
  comment_author :: JiraUser
  comment_body :: string
  comment_created :: string
  comment_updated :: string

record JiraAttachment =
  attachment_id :: string
  attachment_filename :: string
  attachment_author :: JiraUser
  attachment_created :: string
  attachment_size :: rat
  attachment_mimeType :: string
  attachment_content :: string

record JiraWorklog =
  worklog_author :: JiraUser
  worklog_comment :: "string option"
  worklog_created :: string
  worklog_started :: string
  worklog_timeSpent :: string
  worklog_timeSpentSeconds :: rat
  worklog_id :: string

record CommentPage =
  comments :: "JiraComment list"
  comments_total :: rat

record WorklogPage =
  worklogs_total :: rat
  worklogs :: "JiraWorklog list"

text \<open>The shape shared by \<open>parent\<close>, a subtask and a linked issue.\<close>

record IssueRef =
  ref_id :: string
  ref_key :: string
  ref_summary :: string
  ref_status :: JiraStatus
  ref_issuetype :: JiraIssueType

record IssueLink =
  link_id :: string
  link_typeName :: string
  link_typeInward :: string
  link_typeOutward :: string
  outwardIssue :: "IssueRef option"
  inwardIssue :: "IssueRef option"

record JiraIssueFields =
  summary :: string
  description :: "string option"
  issuetype :: JiraIssueType
  project :: JiraProject
  status :: JiraStatus
  priority :: "JiraPriority option"
  resolution :: "JiraResolution option"
  assignee :: "JiraUser option"
  reporter :: "JiraUser option"
  created :: string
  updated :: string
  resolutiondate :: "string option"
  duedate :: "string option"
  components :: "JiraComponent list option"
  fixVersions :: "JiraVersion list option"
  versions :: "JiraVersion list option"
  labels :: "string list option"
  environment :: "string option"
  comment :: "CommentPage option"
  attachment :: "JiraAttachment list option"
  worklog :: "WorklogPage option"
  parent :: "IssueRef option"
  subtasks :: "IssueRef list option"
  issuelinks :: "IssueLink list option"
  customFields :: "(string \<times> jsval) list"

record JiraIssue =
  issue_id :: string
  issue_self :: string
  issue_key :: string
  issue_fields :: JiraIssueFields

text \<open>
  \<open>issue.fields[fieldKey]\<close> for a key that starts with \<open>customfield_\<close>: the
  index signature of the interface.
\<close>

definition fieldAt :: "JiraIssueFields \<Rightarrow> string \<Rightarrow> jsval" where
  "fieldAt f k = (case map_of (customFields f) k of None \<Rightarrow> JUndefined | Some v \<Rightarrow> v)"

section \<open>Export configuration and progress (types/app)\<close>

record ExportConfig =
  format :: string
  includeFields :: "string list"
  includeComments :: bool
  includeAttachments :: bool
  includeWorklog :: bool
  includeSubtasks :: bool
  includeLinks :: bool

datatype stage = Fetching | Processing | Exporting | Complete | Failed

record ProgressInfo =
  current :: nat
  total :: nat
  percentage :: int
  stage :: stage
  message :: string
  startTime :: int
  estimatedTimeRemaining :: "int option"

section \<open>The environment of one export call\<close>

text \<open>
  What the code reads from outside itself: the clock, at each place where the source
  reads it, and the library calls. Times are milliseconds since the epoch.
  \<open>loopNow k\<close> is the reading of \<open>Date.now()\<close> taken in the loop when
  \<open>processedCount = k\<close>. The serialisers (\<open>JSON.stringify\<close>,
  \<open>XMLBuilder.build\<close>, \<open>Papa.unparse\<close>) are third-party code: any of them
  may return a text or throw.
\<close>

record env =
  exportStart :: int
  formatStart :: int
  metaDate :: int
  loopNow :: "nat \<Rightarrow> int"
  fileDate :: int
  toISOString :: "int \<Rightarrow> string"
  jsonStringify :: "jsval \<Rightarrow> exn + jsval"
  jsonStringifyIndent :: "jsval \<Rightarrow> exn + string"
  xmlBuild :: "jsval \<Rightarrow> exn + string"
  papaUnparse :: "jsval list \<Rightarrow> exn + string"

section \<open>ExportService: the JSON and CSV projections\<close>

definition versionJson :: "JiraVersion \<Rightarrow> jsval" where
  "versionJson v = JObj [
     (''id'', JStr (version_id v)),
     (''name'', JStr (version_name v)),
     (''releaseDate'', optStr (version_releaseDate v))]"

definition linkJson :: "IssueLink \<Rightarrow> jsval" where
  "linkJson link = JObj [
     (''id'', JStr (link_id link)),
     (''type'', JObj [
        (''name'', JStr (link_typeName link)),
        (''inward'', JStr (link_typeInward link)),
        (''outward'', JStr (link_typeOutward link))]),
     (''linkedIssue'',
        (case (case outwardIssue link of Some r \<Rightarrow> Some r | None \<Rightarrow> inwardIssue link) of
           Some r \<Rightarrow> JObj [(''key'', JStr (ref_key r)), (''summary'', JStr (ref_summary r))]
         | None \<Rightarrow> JNull)),
     (''direction'', (case outwardIssue link of Some r \<Rightarrow> JStr ''outward'' | None \<Rightarrow> JStr ''inward''))]"

definition processIssueForJson :: "JiraIssue \<Rightarrow> ExportConfig \<Rightarrow> jsval" where
  "processIssueForJson issue config =
    (let f = issue_fields issue in JObj ([
      (''id'', JStr (issue_id issue)),
      (''key'', JStr (issue_key issue)),
      (''self'', JStr (issue_self issue)),
      (''summary'', JStr (summary f)),
      (''description'', optStr (description f)),
      (''issueType'', JObj [
         (''id'', JStr (issuetype_id (issuetype f))),
         (''name'', JStr (issuetype_name (issuetype f))),
         (''subtask'', JBool (issuetype_subtask (issuetype f)))]),
      (''project'', JObj [
         (''id'', JStr (project_id (project f))),
         (''key'', JStr (project_key (project f))),
         (''name'', JStr (project_name (project f)))]),
      (''status'', JObj [
         (''id'', JStr (status_id (status f))),
         (''name'', JStr (status_name (status f))),
         (''category'', JStr (status_categoryName (status f)))]),
      (''priority'', (case priority f of
           Some p \<Rightarrow> JObj [(''id'', JStr (priority_id p)), (''name'', JStr (priority_name p))]
         | None \<Rightarrow> JNull)),
      (''assignee'', (case assignee f of
           Some u \<Rightarrow> JObj [(''displayName'', JStr (user_displayName u)),
                          (''emailAddress'', optStr (user_emailAddress u))]
         | None \<Rightarrow> JNull)),
      (''reporter'', (case reporter f of
           Some u \<Rightarrow> JObj [(''displayName'', JStr (user_displayName u)),
                          (''emailAddress'', optStr (user_emailAddress u))]
         | None \<Rightarrow> JNull)),
      (''created'', JStr (created f)),
      (''updated'', JStr (updated f)),
      (''resolutionDate'', optStr (resolutiondate f)),
      (''dueDate'', optStr (duedate f)),
      (''labels'', jsOr (case labels f of None \<Rightarrow> JUndefined | Some ls \<Rightarrow> JArr (map JStr ls)) (JArr [])),
      (''components'', jsOr (case components f of None \<Rightarrow> JUndefined
         | Some cs \<Rightarrow> JArr (map (\<lambda>c. JObj [
             (''id'', JStr (component_id c)),
             (''name'', JStr (component_name c)),
             (''description'', optStr (component_description c))]) cs)) (JArr [])),
      (''fixVersions'', jsOr (case fixVersions f of None \<Rightarrow> JUndefined
         | Some vs \<Rightarrow> JArr (map versionJson vs)) (JArr [])),
      (''versions'', jsOr (case versions f of None \<Rightarrow> JUndefined
         | Some vs \<Rightarrow> JArr (map versionJson vs)) (JArr []))]
      @ (case comment f of
           Some cp \<Rightarrow> if includeComments config then [(''comments'', JArr (map (\<lambda>c. JObj [
               (''id'', JStr (comment_id c)),
               (''author'', JStr (user_displayName (comment_author c))),
               (''body'', JStr (comment_body c)),
               (''created'', JStr (comment_created c)),
               (''updated'', JStr (comment_updated c))]) (comments cp)))] else []
         | None \<Rightarrow> [])
      @ (case attachment f of
           Some as \<Rightarrow> if includeAttachments config then [(''attachments'', JArr (map (\<lambda>a. JObj [
               (''id'', JStr (attachment_id a)),
               (''filename'', JStr (attachment_filename a)),
               (''size'', JNum (attachment_size a)),
               (''mimeType'', JStr (attachment_mimeType a)),
               (''author'', JStr (user_displayName (attachment_author a))),
               (''created'', JStr (attachment_created a))]) as))] else []
         | None \<Rightarrow> [])
      @ (case worklog f of
           Some wp \<Rightarrow> if includeWorklog config then [(''worklogs'', JArr (map (\<lambda>w. JObj [
               (''id'', JStr (worklog_id w)),
               (''author'', JStr (user_displayName (worklog_author w))),
               (''timeSpent'', JStr (worklog_timeSpent w)),
               (''timeSpentSeconds'', JNum (worklog_timeSpentSeconds w)),
               (''started'', JStr (worklog_started w)),
               (''comment'', optStr (worklog_comment w))]) (worklogs wp)))] else []
         | None \<Rightarrow> [])
      @ (case subtasks f of
           Some sts \<Rightarrow> if includeSubtasks config then [(''subtasks'', JArr (map (\<lambda>st. JObj [
               (''id'', JStr (ref_id st)),
               (''key'', JStr (ref_key st)),
               (''summary'', JStr (ref_summary st)),
               (''status'', JStr (status_name (ref_status st))),
               (''issueType'', JStr (issuetype_name (ref_issuetype st)))]) sts))] else []
         | None \<Rightarrow> [])
      @ (case issuelinks f of
           Some ls \<Rightarrow> if includeLinks config then [(''issueLinks'', JArr (map linkJson ls))] else []
         | None \<Rightarrow> [])
      @ (case parent f of
           Some p \<Rightarrow> [(''parent'', JObj [
               (''id'', JStr (ref_id p)),
               (''key'', JStr (ref_key p)),
               (''summary'', JStr (ref_summary p))])]
         | None \<Rightarrow> [])))"

text \<open>
  \<open>worklogs?.reduce((total, w) => total + w.timeSpentSeconds, 0) || 0\<close>: the sum,
  each addition rounded, which \<open>|| 0\<close> leaves as it is.
\<close>

definition totalTimeSpent :: "WorklogPage \<Rightarrow> rat" where
  "totalTimeSpent wp =
     (let s = foldl (\<lambda>total w. toDouble (total + worklog_timeSpentSeconds w)) 0 (worklogs wp)
      in if s \<noteq> 0 then s else 0)"

definition processIssueForCsv :: "JiraIssue \<Rightarrow> ExportConfig \<Rightarrow> jsval" where
  "processIssueForCsv issue config =
    (let f = issue_fields issue in JObj ([
      (''Issue ID'', JStr (issue_id issue)),
      (''Issue Key'', JStr (issue_key issue)),
      (''Summary'', JStr (summary f)),
      (''Description'', jsOr (optStr (description f)) (JStr [])),
      (''Issue Type'', JStr (issuetype_name (issuetype f))),
      (''Project Key'', JStr (project_key (project f))),
      (''Project Name'', JStr (project_name (project f))),
      (''Status'', JStr (status_name (status f))),
      (''Priority'', jsOr (case priority f of None \<Rightarrow> JUndefined | Some p \<Rightarrow> JStr (priority_name p)) (JStr [])),
      (''Assignee'', jsOr (case assignee f of None \<Rightarrow> JUndefined | Some u \<Rightarrow> JStr (user_displayName u)) (JStr [])),
      (''Reporter'', jsOr (case reporter f of None \<Rightarrow> JUndefined | Some u \<Rightarrow> JStr (user_displayName u)) (JStr [])),
      (''Created'', JStr (created f)),
      (''Updated'', JStr (updated f)),
      (''Resolution Date'', jsOr (optStr (resolutiondate f)) (JStr [])),
      (''Due Date'', jsOr (optStr (duedate f)) (JStr [])),
      (''Labels'', jsOr (case labels f of None \<Rightarrow> JUndefined
         | Some ls \<Rightarrow> JStr (joinWith '', '' ls)) (JStr [])),
      (''Components'', jsOr (case components f of None \<Rightarrow> JUndefined
         | Some cs \<Rightarrow> JStr (joinWith '', '' (map component_name cs))) (JStr [])),
      (''Fix Versions'', jsOr (case fixVersions f of None \<Rightarrow> JUndefined
         | Some vs \<Rightarrow> JStr (joinWith '', '' (map version_name vs))) (JStr [])),
      (''Versions'', jsOr (case versions f of None \<Rightarrow> JUndefined
         | Some vs \<Rightarrow> JStr (joinWith '', '' (map version_name vs))) (JStr []))]
      @ (case parent f of
           Some p \<Rightarrow> [(''Parent Key'', JStr (ref_key p)), (''Parent Summary'', JStr (ref_summary p))]
         | None \<Rightarrow> [])
      @ (case subtasks f of
           Some sts \<Rightarrow> if includeSubtasks config then [
               (''Subtasks Count'', JNum (of_nat (length sts))),
               (''Subtasks'', JStr (joinWith '', '' (map ref_key sts)))] else []
         | None \<Rightarrow> [])
      @ (case comment f of
           Some cp \<Rightarrow> if includeComments config then [(''Comments Count'', JNum (comments_total cp))] else []
         | None \<Rightarrow> [])
      @ (case attachment f of
           Some as \<Rightarrow> if includeAttachments config then [(''Attachments Count'', JNum (of_nat (length as)))] else []
         | None \<Rightarrow> [])
      @ (case worklog f of
           Some wp \<Rightarrow> if includeWorklog config then [
               (''Worklog Count'', JNum (worklogs_total wp)),
               (''Total Time Spent (seconds)'', JNum (totalTimeSpent wp)),
               (''Total Time Spent (hours)'',
                  JNum (toDouble (of_int (mathRound (toDouble (toDouble (totalTimeSpent wp / 3600) * 100))) / 100)))] else []
         | None \<Rightarrow> [])))"

section \<open>XmlExporter: the XML projection\<close>

text \<open>
  \<open>normalizeCustomField\<close>. An object inside an array is reduced by truthiness
  (\<open>item.value || item.name || item.displayName || JSON.stringify(item)\<close>), an
  object at top level by \<open>!== undefined\<close>.
\<close>

definition normalizeItem :: "env \<Rightarrow> jsval \<Rightarrow> exn + jsval" where
  "normalizeItem e item =
     (if typeofObject item \<and> item \<noteq> JNull then
        (if truthy (getProp item ''value'') then Inr (getProp item ''value'')
         else if truthy (getProp item ''name'') then Inr (getProp item ''name'')
         else if truthy (getProp item ''displayName'') then Inr (getProp item ''displayName'')
         else jsonStringify e item)
      else Inr item)"

definition normalizeCustomField :: "env \<Rightarrow> jsval \<Rightarrow> exn + jsval" where
  "normalizeCustomField e v =
     (case v of
        JArr items \<Rightarrow> (case mapE (normalizeItem e) items of Inl x \<Rightarrow> Inl x | Inr ys \<Rightarrow> Inr (JArr ys))
      | _ \<Rightarrow>
        (if typeofObject v \<and> v \<noteq> JNull then
           (if getProp v ''value'' \<noteq> JUndefined then Inr (getProp v ''value'')
            else if getProp v ''name'' \<noteq> JUndefined then Inr (getProp v ''name'')
            else if getProp v ''displayName'' \<noteq> JUndefined then Inr (getProp v ''displayName'')
            else jsonStringify e v)
         else Inr v))"

text \<open>The loop over \<open>config.includeFields\<close> that fills \<open>customFields\<close>.\<close>

fun collectCustomFields ::
  "env \<Rightarrow> JiraIssueFields \<Rightarrow> string list \<Rightarrow> (string \<times> jsval) list \<Rightarrow> exn + (string \<times> jsval) list" where
  "collectCustomFields e f [] acc = Inr acc"
| "collectCustomFields e f (fieldKey # ks) acc =
     (if startsWith fieldKey ''customfield_'' \<and> fieldAt f fieldKey \<noteq> JUndefined then
        (if fieldAt f fieldKey \<noteq> JNull then
           (case normalizeCustomField e (fieldAt f fieldKey) of
              Inl x \<Rightarrow> Inl x
            | Inr n \<Rightarrow> collectCustomFields e f ks (objSet acc fieldKey n))
         else collectCustomFields e f ks acc)
      else collectCustomFields e f ks acc)"

definition userXml :: "JiraUser option \<Rightarrow> jsval" where
  "userXml u = (case u of
       Some x \<Rightarrow> JObj [(''@_username'', jsOr (optStr (user_name x)) (optStr (user_key x))),
                      (''#text'', JStr (user_displayName x))]
     | None \<Rightarrow> JUndefined)"

definition versionXml :: "JiraVersion \<Rightarrow> jsval" where
  "versionXml v = JObj [(''@_id'', JStr (version_id v)), (''#text'', JStr (version_name v))]"

definition linkXml :: "IssueLink \<Rightarrow> jsval" where
  "linkXml link = JObj [
     (''@_id'', JStr (link_id link)),
     (''@_type'', JStr (link_typeName link)),
     (''@_direction'', (case outwardIssue link of Some r \<Rightarrow> JStr ''outward'' | None \<Rightarrow> JStr ''inward'')),
     (''@_linktype'', (case outwardIssue link of Some r \<Rightarrow> JStr (link_typeOutward link)
                                               | None \<Rightarrow> JStr (link_typeInward link))),
     (''issuekey'', (case (case outwardIssue link of Some r \<Rightarrow> Some r | None \<Rightarrow> inwardIssue link) of
                       Some r \<Rightarrow> JStr (ref_key r) | None \<Rightarrow> JUndefined)),
     (''summary'', (case (case outwardIssue link of Some r \<Rightarrow> Some r | None \<Rightarrow> inwardIssue link) of
                       Some r \<Rightarrow> JStr (ref_summary r) | None \<Rightarrow> JUndefined))]"

text \<open>The object literal and the flag-gated sections of \<open>convertIssueToXml\<close>.\<close>

definition xmlIssueBase :: "JiraIssue \<Rightarrow> ExportConfig \<Rightarrow> (string \<times> jsval) list" where
  "xmlIssueBase issue config =
    (let f = issue_fields issue in [
      (''@_id'', JStr (issue_id issue)),
      (''title'', JStr (summary f)),
      (''link'', JStr (issue_self issue)),
      (''project-key'', JStr (project_key (project f))),
      (''description'', jsOr (optStr (description f)) (JStr [])),
      (''environment'', jsOr (optStr (environment f)) (JStr [])),
      (''key'', JStr (issue_key issue)),
      (''summary'', JStr (summary f)),
      (''type'', JObj [
         (''@_id'', JStr (issuetype_id (issuetype f))),
         (''@_iconUrl'', JStr (issuetype_iconUrl (issuetype f))),
         (''#text'', JStr (issuetype_name (issuetype f)))]),
      (''priority'', (case priority f of
           Some p \<Rightarrow> JObj [
             (''@_id'', JStr (priority_id p)),
             (''@_iconUrl'', JStr (priority_iconUrl p)),
             (''#text'', JStr (priority_name p))]
         | None \<Rightarrow> JUndefined)),
      (''status'', JObj [
         (''@_id'', JStr (status_id (status f))),
         (''@_description'', JStr (status_description (status f))),
         (''#text'', JStr (status_name (status f)))]),
      (''resolution'', (case resolution f of
           Some r \<Rightarrow> JObj [(''@_id'', JStr (resolution_id r)), (''#text'', JStr (resolution_name r))]
         | None \<Rightarrow> JUndefined)),
      (''assignee'', userXml (assignee f)),
      (''reporter'', userXml (reporter f)),
      (''created'', JStr (created f)),
      (''updated'', JStr (updated f)),
      (''resolved'', optStr (resolutiondate f)),
      (''version'', jsOr (case versions f of None \<Rightarrow> JUndefined
         | Some vs \<Rightarrow> JArr (map versionXml vs)) (JArr [])),
      (''fix-version'', jsOr (case fixVersions f of None \<Rightarrow> JUndefined
         | Some vs \<Rightarrow> JArr (map versionXml vs)) (JArr [])),
      (''component'', jsOr (case components f of None \<Rightarrow> JUndefined
         | Some cs \<Rightarrow> JArr (map (\<lambda>c. JObj [(''@_id'', JStr (component_id c)),
                                            (''#text'', JStr (component_name c))]) cs)) (JArr [])),
      (''labels'', JObj [(''label'',
         jsOr (case labels f of None \<Rightarrow> JUndefined | Some ls \<Rightarrow> JArr (map JStr ls)) (JArr []))]),
      (''due-date'', optStr (duedate f))]
      @ (case comment f of
           Some cp \<Rightarrow> if includeComments config then [(''comments'', JObj [
               (''@_total'', JNum (comments_total cp)),
               (''comment'', JArr (map (\<lambda>c. JObj [
                  (''@_id'', JStr (comment_id c)),
                  (''@_author'', JStr (user_displayName (comment_author c))),
                  (''@_created'', JStr (comment_created c)),
                  (''@_updated'', JStr (comment_updated c)),
                  (''#text'', JStr (comment_body c))]) (comments cp)))])] else []
         | None \<Rightarrow> [])
      @ (case attachment f of
           Some as \<Rightarrow> if includeAttachments config then [(''attachments'', JObj [
               (''@_total'', JNum (of_nat (length as))),
               (''attachment'', JArr (map (\<lambda>a. JObj [
                  (''@_id'', JStr (attachment_id a)),
                  (''@_name'', JStr (attachment_filename a)),
                  (''@_size'', JNum (attachment_size a)),
                  (''@_author'', JStr (user_displayName (attachment_author a))),
                  (''@_created'', JStr (attachment_created a)),
                  (''#text'', JStr (attachment_content a))]) as))])] else []
         | None \<Rightarrow> [])
      @ (case worklog f of
           Some wp \<Rightarrow> if includeWorklog config then [(''worklogs'', JObj [
               (''@_total'', JNum (worklogs_total wp)),
               (''worklog'', JArr (map (\<lambda>w. JObj [
                  (''@_id'', JStr (worklog_id w)),
                  (''@_author'', JStr (user_displayName (worklog_author w))),
                  (''@_created'', JStr (worklog_created w)),
                  (''@_started'', JStr (worklog_started w)),
                  (''@_timeSpent'', JStr (worklog_timeSpent w)),
                  (''@_timeSpentSeconds'', JNum (worklog_timeSpentSeconds w)),
                  (''#text'', jsOr (optStr (worklog_comment w)) (JStr []))]) (worklogs wp)))])] else []
         | None \<Rightarrow> [])
      @ (case subtasks f of
           Some sts \<Rightarrow> if includeSubtasks config then [(''subtasks'', JObj [
               (''@_total'', JNum (of_nat (length sts))),
               (''subtask'', JArr (map (\<lambda>st. JObj [
                  (''@_id'', JStr (ref_id st)),
                  (''@_key'', JStr (ref_key st)),
                  (''@_type'', JStr (issuetype_name (ref_issuetype st))),
                  (''@_status'', JStr (status_name (ref_status st))),
                  (''#text'', JStr (ref_summary st))]) sts))])] else []
         | None \<Rightarrow> [])
      @ (case parent f of
           Some p \<Rightarrow> [(''parent'', JObj [
               (''@_id'', JStr (ref_id p)),
               (''@_key'', JStr (ref_key p)),
               (''#text'', JStr (ref_summary p))])]
         | None \<Rightarrow> [])
      @ (case issuelinks f of
           Some ls \<Rightarrow> if includeLinks config then [(''issuelinks'', JObj [
               (''@_total'', JNum (of_nat (length ls))),
               (''issuelink'', JArr (map linkXml ls))])] else []
         | None \<Rightarrow> []))"

definition convertIssueToXml :: "env \<Rightarrow> JiraIssue \<Rightarrow> ExportConfig \<Rightarrow> exn + jsval" where
  "convertIssueToXml e issue config =
     (if includeFields config \<noteq> [] then
        (case collectCustomFields e (issue_fields issue) (includeFields config) [] of
           Inl x \<Rightarrow> Inl x
         | Inr customfields \<Rightarrow>
             Inr (JObj (xmlIssueBase issue config
               @ (if customfields \<noteq> [] then [(''customfields'', JObj customfields)] else []))))
      else Inr (JObj (xmlIssueBase issue config)))"

section \<open>The export orchestration\<close>

text \<open>
  A run is modelled by what it does to the outside: the progress events handed to
  \<open>onProgress\<close>, in order; the artifacts handed to \<open>saveAs\<close>; and how the call
  ends (\<open>Inl\<close>: it throws). \<open>onProgress\<close> is optional in the source: the flag
  says whether the caller supplied it. The callback, \<open>new Blob\<close> and \<open>saveAs\<close>
  are taken to return: what throws is a projection, a serialiser or the switch on the format.
\<close>

record Artifact =
  art_content :: string
  art_filename :: string
  art_mimeType :: string

type_synonym outcome = "ProgressInfo list \<times> Artifact list \<times> (exn + unit)"

definition emit :: "bool \<Rightarrow> ProgressInfo \<Rightarrow> ProgressInfo list \<Rightarrow> ProgressInfo list" where
  "emit onProgress p evs = (if onProgress then evs @ [p] else evs)"

text \<open>\<open>`jira-export-${new Date().toISOString().split('T')[0]}.ext`\<close>\<close>

definition exportFilename :: "env \<Rightarrow> string \<Rightarrow> string" where
  "exportFilename e ext =
     ''jira-export-'' @ takeWhile (\<lambda>c. c \<noteq> CHR ''T'') (toISOString e (fileDate e)) @ ext"

text \<open>
  The event of the loop body, built when \<open>processedCount % 10 === 0\<close>. The loop
  builds it with \<open>1 \<le> processedCount \<le> n\<close>. \<open>elapsed\<close> is a difference of two
  clock readings, which is exact; every other operation rounds its result.
\<close>

definition processingEvent :: "env \<Rightarrow> nat \<Rightarrow> nat \<Rightarrow> ProgressInfo" where
  "processingEvent e n processedCount =
     (let percentage = toDouble (toDouble (of_nat processedCount / of_nat n) * 100);
          elapsed = of_int (loopNow e processedCount - formatStart e);
          estimatedTotal = toDouble (toDouble (elapsed / of_nat processedCount) * of_nat n);
          remaining = toDouble (estimatedTotal - elapsed)
      in \<lparr>current = processedCount, total = n, percentage = mathRound percentage,
          stage = Processing,
          message = ''Processing issue '' @ natToString processedCount @ '' of '' @ natToString n,
          startTime = formatStart e,
          estimatedTimeRemaining = Some (mathRound (toDouble (remaining / 1000)))\<rparr>)"

text \<open>
  The \<open>for (const issue of issues)\<close> loop. \<open>exportJson\<close>, \<open>exportCsv\<close> and
  \<open>exportToXml\<close> each contain the same loop and differ in the projection they call,
  which is the parameter \<open>projection\<close>. \<open>n\<close> is \<open>issues.length\<close>. A projection
  that throws ends the loop; the events emitted so far stay emitted.
\<close>

fun processIssues ::
  "env \<Rightarrow> (JiraIssue \<Rightarrow> exn + jsval) \<Rightarrow> bool \<Rightarrow> nat \<Rightarrow> JiraIssue list \<Rightarrow> nat \<Rightarrow> jsval list
     \<Rightarrow> ProgressInfo list \<Rightarrow> ProgressInfo list \<times> (exn + nat \<times> jsval list)" where
  "processIssues e projection onProgress n [] processedCount items evs =
     (evs, Inr (processedCount, items))"
| "processIssues e projection onProgress n (issue # rest) processedCount items evs =
     (case projection issue of
        Inl x \<Rightarrow> (evs, Inl x)
      | Inr item \<Rightarrow>
          processIssues e projection onProgress n rest (processedCount + 1) (items @ [item])
            (if onProgress \<and> (processedCount + 1) mod 10 = 0
             then evs @ [processingEvent e n (processedCount + 1)] else evs))"

text \<open>
  The object \<open>exportData\<close> of \<open>exportJson\<close>, once the loop has filled its
  \<open>issues\<close> array; \<open>n\<close> is \<open>issues.length\<close>.
\<close>

definition exportData :: "env \<Rightarrow> nat \<Rightarrow> jsval list \<Rightarrow> jsval" where
  "exportData e n items = JObj [
     (''metadata'', JObj [
        (''exportDate'', JStr (toISOString e (metaDate e))),
        (''totalIssues'', JNum (of_nat n)),
        (''format'', JStr ''json''),
        (''version'', JStr ''1.0.0'')]),
     (''issues'', JArr items)]"

text \<open>The object \<open>xmlData\<close> of \<open>exportToXml\<close>, once the loop has filled \<open>item\<close>.\<close>

definition xmlData :: "env \<Rightarrow> nat \<Rightarrow> jsval list \<Rightarrow> jsval" where
  "xmlData e n item = JObj [
     (''?xml'', JObj [(''@_version'', JStr ''1.0''), (''@_encoding'', JStr ''UTF-8'')]),
     (''rss'', JObj [
        (''@_version'', JStr ''2.0''),
        (''@_xmlns:jira'', JStr ''http://www.atlassian.com/jira''),
        (''@_xmlns:dc'', JStr ''http://purl.org/dc/elements/1.1/''),
        (''channel'', JObj [
           (''title'', JStr ''JIRA Feature Extract''),
           (''link'', JStr ''#''),
           (''description'', JStr (''Exported '' @ natToString n @ '' issues'')),
           (''language'', JStr ''en-uk''),
           (''build-info'', JObj [
              (''version'', JStr ''1.0.0''),
              (''build-number'', JStr ''1''),
              (''build-date'', JStr (toISOString e (metaDate e)))]),
           (''item'', JArr item)])])]"

definition exportJson :: "env \<Rightarrow> JiraIssue list \<Rightarrow> ExportConfig \<Rightarrow> bool \<Rightarrow> ProgressInfo list \<Rightarrow> outcome" where
  "exportJson e issues config onProgress evs0 =
     (case processIssues e (\<lambda>issue. Inr (processIssueForJson issue config)) onProgress
             (length issues) issues 0 [] evs0 of
        (evs1, Inl x) \<Rightarrow> (evs1, [], Inl x)
      | (evs1, Inr (processedCount, items)) \<Rightarrow>
          (let evs2 = emit onProgress
                 \<lparr>current = processedCount, total = length issues, percentage = 100,
                  stage = Exporting, message = ''Generating JSON...'',
                  startTime = formatStart e, estimatedTimeRemaining = None\<rparr> evs1
           in case jsonStringifyIndent e (exportData e (length issues) items) of
                Inl x \<Rightarrow> (evs2, [], Inl x)
              | Inr jsonContent \<Rightarrow>
                  (emit onProgress
                     \<lparr>current = processedCount, total = length issues, percentage = 100,
                      stage = Complete, message = ''JSON export complete'',
                      startTime = formatStart e, estimatedTimeRemaining = None\<rparr> evs2,
                   [\<lparr>art_content = jsonContent, art_filename = exportFilename e ''.json'',
                     art_mimeType = ''application/json;charset=utf-8''\<rparr>],
                   Inr ())))"

definition exportCsv :: "env \<Rightarrow> JiraIssue list \<Rightarrow> ExportConfig \<Rightarrow> bool \<Rightarrow> ProgressInfo list \<Rightarrow> outcome" where
  "exportCsv e issues config onProgress evs0 =
     (case processIssues e (\<lambda>issue. Inr (processIssueForCsv issue config)) onProgress
             (length issues) issues 0 []
             (emit onProgress
                \<lparr>current = 0, total = length issues, percentage = 0,
                 stage = Processing, message = ''Preparing CSV export...'',
                 startTime = formatStart e, estimatedTimeRemaining = None\<rparr> evs0) of
        (evs1, Inl x) \<Rightarrow> (evs1, [], Inl x)
      | (evs1, Inr (processedCount, csvData)) \<Rightarrow>
          (let evs2 = emit onProgress
                 \<lparr>current = processedCount, total = length issues, percentage = 100,
                  stage = Exporting, message = ''Generating CSV...'',
                  startTime = formatStart e, estimatedTimeRemaining = None\<rparr> evs1
           in case papaUnparse e csvData of
                Inl x \<Rightarrow> (evs2, [], Inl x)
              | Inr csv \<Rightarrow>
                  (emit onProgress
                     \<lparr>current = processedCount, total = length issues, percentage = 100,
                      stage = Complete, message = ''CSV export complete'',
                      startTime = formatStart e, estimatedTimeRemaining = None\<rparr> evs2,
                   [\<lparr>art_content = csv, art_filename = exportFilename e ''.csv'',
                     art_mimeType = ''text/csv;charset=utf-8''\<rparr>],
                   Inr ())))"

text \<open>\<open>XmlExporter.exportToXml\<close> returns the XML text; \<open>exportXml\<close> saves it.\<close>

definition exportToXml ::
  "env \<Rightarrow> JiraIssue list \<Rightarrow> ExportConfig \<Rightarrow> bool \<Rightarrow> ProgressInfo list \<Rightarrow> ProgressInfo list \<times> (exn + string)" where
  "exportToXml e issues config onProgress evs0 =
     (case processIssues e (\<lambda>issue. convertIssueToXml e issue config) onProgress
             (length issues) issues 0 []
             (emit onProgress
                \<lparr>current = 0, total = length issues, percentage = 0,
                 stage = Processing, message = ''Preparing XML export...'',
                 startTime = formatStart e, estimatedTimeRemaining = None\<rparr> evs0) of
        (evs1, Inl x) \<Rightarrow> (evs1, Inl x)
      | (evs1, Inr (processedCount, item)) \<Rightarrow>
          (let evs2 = emit onProgress
                 \<lparr>current = processedCount, total = length issues, percentage = 100,
                  stage = Exporting, message = ''Generating XML...'',
                  startTime = formatStart e, estimatedTimeRemaining = None\<rparr> evs1
           in case xmlBuild e (xmlData e (length issues) item) of
                Inl x \<Rightarrow> (evs2, Inl x)
              | Inr xmlString \<Rightarrow>
                  (emit onProgress
                     \<lparr>current = processedCount, total = length issues, percentage = 100,
                      stage = Complete, message = ''Export complete'',
                      startTime = formatStart e, estimatedTimeRemaining = None\<rparr> evs2,
                   Inr xmlString)))"

definition exportXml :: "env \<Rightarrow> JiraIssue list \<Rightarrow> ExportConfig \<Rightarrow> bool \<Rightarrow> ProgressInfo list \<Rightarrow> outcome" where
  "exportXml e issues config onProgress evs0 =
     (case exportToXml e issues config onProgress evs0 of
        (evs1, Inl x) \<Rightarrow> (evs1, [], Inl x)
      | (evs1, Inr xmlContent) \<Rightarrow>
          (evs1,
           [\<lparr>art_content = xmlContent, art_filename = exportFilename e ''.xml'',
             art_mimeType = ''application/xml;charset=utf-8''\<rparr>],
           Inr ()))"

text \<open>\<open>error instanceof Error ? error.message : 'Export failed'\<close>\<close>

fun errorMessage :: "exn \<Rightarrow> string" where
  "errorMessage (Error m) = m"
| "errorMessage (Thrown v) = ''Export failed''"

definition errorEvent :: "env \<Rightarrow> nat \<Rightarrow> exn \<Rightarrow> ProgressInfo" where
  "errorEvent e n x =
     \<lparr>current = 0, total = n, percentage = 0, stage = Failed, message = errorMessage x,
      startTime = exportStart e, estimatedTimeRemaining = None\<rparr>"

definition startEvent :: "env \<Rightarrow> nat \<Rightarrow> string \<Rightarrow> ProgressInfo" where
  "startEvent e n fmt =
     \<lparr>current = 0, total = n, percentage = 0, stage = Processing,
      message = ''Starting '' @ toUpperCase fmt @ '' export...'',
      startTime = exportStart e, estimatedTimeRemaining = None\<rparr>"

text \<open>\<open>ExportService.export\<close>: the first event, the switch on the format, the catch.\<close>

definition export :: "env \<Rightarrow> JiraIssue list \<Rightarrow> ExportConfig \<Rightarrow> bool \<Rightarrow> outcome" where
  "export e issues config onProgress =
     (let evs0 = emit onProgress (startEvent e (length issues) (format config)) []
      in case (if format config = ''xml'' then exportXml e issues config onProgress evs0
               else if format config = ''json'' then exportJson e issues config onProgress evs0
               else if format config = ''csv'' then exportCsv e issues config onProgress evs0
               else (evs0, [], Inl (Error (''Unsupported export format: '' @ format config)))) of
           (evs1, saved, Inl x) \<Rightarrow>
             (emit onProgress (errorEvent e (length issues) x) evs1, saved, Inl x)
         | (evs1, saved, Inr u) \<Rightarrow> (evs1, saved, Inr u))"

section \<open>Vocabulary for stating properties of a run\<close>

text \<open>How many issues the loop projects before a projection throws (all, if none does).\<close>

definition projectedCount :: "(JiraIssue \<Rightarrow> exn + jsval) \<Rightarrow> JiraIssue list \<Rightarrow> nat" where
  "projectedCount projection issues = length (takeWhile (\<lambda>i. \<not> isl (projection i)) issues)"

text \<open>The loop events for the counts in \<open>lo < k \<le> hi\<close> that are multiples of 10.\<close>

definition loopEvents :: "env \<Rightarrow> nat \<Rightarrow> nat \<Rightarrow> nat \<Rightarrow> ProgressInfo list" where
  "loopEvents e n lo hi = map (processingEvent e n) (filter (\<lambda>k. k mod 10 = 0) [Suc lo ..< Suc hi])"

text \<open>What the loop adds to the events when it projects \<open>m\<close> issues.\<close>

definition loopTrace :: "env \<Rightarrow> bool \<Rightarrow> nat \<Rightarrow> nat \<Rightarrow> ProgressInfo list" where
  "loopTrace e onProgress n m = (if onProgress then loopEvents e n 0 m else [])"

text \<open>
  An event of an exporter that carries no estimate: its start time is the exporter's own
  \<open>startTime\<close>.
\<close>

definition mkEvent :: "env \<Rightarrow> nat \<Rightarrow> nat \<Rightarrow> int \<Rightarrow> stage \<Rightarrow> string \<Rightarrow> ProgressInfo" where
  "mkEvent e c n pct st msg =
     \<lparr>current = c, total = n, percentage = pct, stage = st, message = msg,
      startTime = formatStart e, estimatedTimeRemaining = None\<rparr>"

text \<open>The percentage of the loop event for the count \<open>k\<close> out of \<open>n\<close>.\<close>

definition pct :: "nat \<Rightarrow> nat \<Rightarrow> int" where
  "pct n k = mathRound (toDouble (toDouble (of_nat k / of_nat n) * 100))"

text \<open>The events of stage \<open>error\<close>.\<close>

definition failedEvents :: "ProgressInfo list \<Rightarrow> ProgressInfo list" where
  "failedEvents evs = filter (\<lambda>p. stage p = Failed) evs"

text \<open>The keys of the object literal that opens \<open>processIssueForJson\<close>.\<close>

definition jsonCoreKeys :: "string list" where
  "jsonCoreKeys = [''id'', ''key'', ''self'', ''summary'', ''description'', ''issueType'', ''project'',
     ''status'', ''priority'', ''assignee'', ''reporter'', ''created'', ''updated'', ''resolutionDate'',
     ''dueDate'', ''labels'', ''components'', ''fixVersions'', ''versions'']"

text \<open>The columns of the object literal that opens \<open>processIssueForCsv\<close>.\<close>

definition csvCoreKeys :: "string list" where
  "csvCoreKeys = [''Issue ID'', ''Issue Key'', ''Summary'', ''Description'', ''Issue Type'',
     ''Project Key'', ''Project Name'', ''Status'', ''Priority'', ''Assignee'', ''Reporter'',
     ''Created'', ''Updated'', ''Resolution Date'', ''Due Date'', ''Labels'', ''Components'',
     ''Fix Versions'', ''Versions'']"

text \<open>The keys of the object literal that opens \<open>convertIssueToXml\<close>.\<close>

definition xmlCoreKeys :: "string list" where
  "xmlCoreKeys = [''@_id'', ''title'', ''link'', ''project-key'', ''description'', ''environment'',
     ''key'', ''summary'', ''type'', ''priority'', ''status'', ''resolution'', ''assignee'',
     ''reporter'', ''created'', ''updated'', ''resolved'', ''version'', ''fix-version'',
     ''component'', ''labels'', ''due-date'']"

text \<open>
  Some key of the include-list starts with \<open>customfield_\<close> and names a field of
  the issue that is neither \<open>undefined\<close> nor \<open>null\<close>.
\<close>

definition customFieldSelected :: "JiraIssue \<Rightarrow> ExportConfig \<Rightarrow> bool" where
  "customFieldSelected issue config =
     (\<exists>k\<in>set (includeFields config). startsWith k ''customfield_''
        \<and> fieldAt (issue_fields issue) k \<noteq> JUndefined \<and> fieldAt (issue_fields issue) k \<noteq> JNull)"

text \<open>A \<open>processing\<close> event with a positive count: an event of the loop.\<close>

definition inLoop :: "ProgressInfo \<Rightarrow> bool" where
  "inLoop p = (stage p = Processing \<and> 0 < current p)"

text \<open>
  How many issues a run projects: all of them for JSON and CSV, whose projections cannot
  throw; for XML, those before the first projection that throws; none for another format.
\<close>

definition issuesProcessed :: "env \<Rightarrow> JiraIssue list \<Rightarrow> ExportConfig \<Rightarrow> nat" where
  "issuesProcessed e issues config =
     (if format config = ''xml'' then projectedCount (\<lambda>issue. convertIssueToXml e issue config) issues
      else if format config = ''json'' \<or> format config = ''csv'' then length issues
      else 0)"

text \<open>
  The exception that the projections and the serialiser of the chosen format raise
  first in a run, if any: a projection of the XML loop, then the serialiser.
\<close>

definition firstFailure :: "env \<Rightarrow> JiraIssue list \<Rightarrow> ExportConfig \<Rightarrow> exn option" where
  "firstFailure e issues config =
     (if format config = ''xml'' then
        (case mapE (\<lambda>issue. convertIssueToXml e issue config) issues of
           Inl x \<Rightarrow> Some x
         | Inr item \<Rightarrow>
             (case xmlBuild e (xmlData e (length issues) item) of Inl x \<Rightarrow> Some x | Inr t \<Rightarrow> None))
      else if format config = ''json'' then
        (case jsonStringifyIndent e
                (exportData e (length issues) (map (\<lambda>issue. processIssueForJson issue config) issues)) of
           Inl x \<Rightarrow> Some x | Inr t \<Rightarrow> None)
      else if format config = ''csv'' then
        (case papaUnparse e (map (\<lambda>issue. processIssueForCsv issue config) issues) of
           Inl x \<Rightarrow> Some x | Inr t \<Rightarrow> None)
      else None)"

section \<open>Papa.unparse\<close>

text \<open>
  \<open>Papa.unparse(rows, {header: true, delimiter: ',', quotes: true})\<close> on an array of
  row objects, as the papaparse library implements it. The columns are the keys of the
  first row, so an empty array has no column and gives the empty text. Every cell is
  quoted, a quote inside it doubled; \<open>null\<close> and \<open>undefined\<close> give an empty
  cell; lines are joined by CR LF. \<open>toText\<close> is \<open>String(v)\<close>.
\<close>

definition papaQuote :: "string \<Rightarrow> string" where
  "papaQuote s = CHR 0x22 # concat (map (\<lambda>c. if c = CHR 0x22 then [c, c] else [c]) s) @ [CHR 0x22]"

definition papaCell :: "(jsval \<Rightarrow> string) \<Rightarrow> jsval \<Rightarrow> string" where
  "papaCell toText v = (if v = JUndefined \<or> v = JNull then [] else papaQuote (toText v))"

definition papaUnparseModel :: "(jsval \<Rightarrow> string) \<Rightarrow> jsval list \<Rightarrow> string" where
  "papaUnparseModel toText rows =
     (case rows of
        [] \<Rightarrow> []
      | r # rs \<Rightarrow>
          joinWith [CHR 0x0D, CHR 0x0A]
            (joinWith '','' (map (\<lambda>k. papaCell toText (JStr k)) (objKeys r))
             # map (\<lambda>row. joinWith '','' (map (\<lambda>k. papaCell toText (getProp row k)) (objKeys r))) rows))"

section \<open>Sample data\<close>

definition sampleStatus :: JiraStatus where
  "sampleStatus = \<lparr>status_id = ''3'', status_name = ''In Progress'',
     status_description = ''Work has started'', status_categoryName = ''In Progress''\<rparr>"

definition sampleIssueType :: JiraIssueType where
  "sampleIssueType = \<lparr>issuetype_id = ''10001'', issuetype_name = ''Story'',
     issuetype_subtask = False, issuetype_iconUrl = ''https://jira.example.com/story.svg''\<rparr>"

definition sampleParent :: IssueRef where
  "sampleParent = \<lparr>ref_id = ''10'', ref_key = ''PROJ-1'', ref_summary = ''Parent'',
     ref_status = sampleStatus, ref_issuetype = sampleIssueType\<rparr>"

text \<open>An issue with no optional field at all.\<close>

definition bareIssue :: JiraIssue where
  "bareIssue = \<lparr>issue_id = ''11'', issue_self = ''https://jira.example.com/rest/api/2/issue/11'',
     issue_key = ''PROJ-2'',
     issue_fields = \<lparr>summary = ''Export the report'', description = None,
       issuetype = sampleIssueType,
       project = \<lparr>project_id = ''1'', project_key = ''PROJ'', project_name = ''Project''\<rparr>,
       status = sampleStatus, priority = None, resolution = None, assignee = None,
       reporter = None, created = ''2024-01-02T10:00:00.000+0000'',
       updated = ''2024-01-03T10:00:00.000+0000'', resolutiondate = None, duedate = None,
       components = None, fixVersions = None, versions = None, labels = None,
       environment = None, comment = None, attachment = None, worklog = None,
       parent = None, subtasks = None, issuelinks = None, customFields = []\<rparr>\<rparr>"

text \<open>The same issue with a parent, an empty subtask list and one custom field.\<close>

definition childIssue :: JiraIssue where
  "childIssue = bareIssue\<lparr>issue_fields := (issue_fields bareIssue)\<lparr>
     parent := Some sampleParent, subtasks := Some [],
     customFields := [(''customfield_10001'', JArr [JObj [(''value'', JStr ''x'')]])]\<rparr>\<rparr>"

definition flagsOff :: "string \<Rightarrow> string list \<Rightarrow> ExportConfig" where
  "flagsOff fmt keys = \<lparr>format = fmt, includeFields = keys, includeComments = False,
     includeAttachments = False, includeWorklog = False, includeSubtasks = False,
     includeLinks = False\<rparr>"

text \<open>\<open>String(v)\<close> on the cells of the sample rows: texts and whole numbers.\<close>

definition sampleText :: "jsval \<Rightarrow> string" where
  "sampleText v = (case v of JStr s \<Rightarrow> s | JNum n \<Rightarrow> natToString (nat \<lfloor>n\<rfloor>) | _ \<Rightarrow> [])"

text \<open>An environment whose serialisers return, with fixed texts for JSON and XML.\<close>

definition sampleEnv :: env where
  "sampleEnv = \<lparr>exportStart = 1704190000000, formatStart = 1704190000001,
     metaDate = 1704190000001, loopNow = (\<lambda>k. 1704190000001 + 40 * int k),
     fileDate = 1704190002000, toISOString = (\<lambda>t. ''2024-01-02T10:06:40.000Z''),
     jsonStringify = (\<lambda>v. Inr (JStr ''{}'')),
     jsonStringifyIndent = (\<lambda>v. Inr ''{}''),
     xmlBuild = (\<lambda>v. Inr ''<rss/>''),
     papaUnparse = (\<lambda>rows. Inr (papaUnparseModel sampleText rows))\<rparr>"

text \<open>The same environment with a \<open>JSON.stringify\<close> that throws.\<close>

definition failingEnv :: env where
  "failingEnv = sampleEnv\<lparr>jsonStringifyIndent := (\<lambda>v. Inl (Error ''Invalid string length''))\<rparr>"

section \<open>The loop and the traces of the exporters\<close>

lemma loopEvents_same: "loopEvents e n k k = []"
  by (simp add: loopEvents_def)

lemma loopEvents_first:
  "lo < hi \<Longrightarrow> loopEvents e n lo hi = (if Suc lo mod 10 = 0 then [processingEvent e n (Suc lo)] else []) @ loopEvents e n (Suc lo) hi"
proof -
  assume "lo < hi"
  then have "[Suc lo ..< Suc hi] = Suc lo # [Suc (Suc lo) ..< Suc hi]"
    by (simp add: upt_conv_Cons del: upt_Suc)
  then show ?thesis
    by (simp add: loopEvents_def del: upt_Suc)
qed

lemma projectedCount_Nil: "projectedCount pr [] = 0"
  by (simp add: projectedCount_def)

lemma projectedCount_Cons:
  "projectedCount pr (i # is) = (case pr i of Inl x \<Rightarrow> 0 | Inr y \<Rightarrow> Suc (projectedCount pr is))"
  by (simp add: projectedCount_def split: sum.splits)

lemma processIssues_events:
  "fst (processIssues e pr True n issues pc items evs) = evs @ loopEvents e n pc (pc + projectedCount pr issues)"
proof (induction issues arbitrary: pc items evs)
  case Nil
  then show ?case by (simp add: projectedCount_Nil loopEvents_same)
next
  case (Cons i "is")
  show ?case
  proof (cases "pr i")
    case (Inl x)
    then show ?thesis by (simp add: projectedCount_Cons loopEvents_same)
  next
    case (Inr y)
    then show ?thesis
      using Cons.IH [of "Suc pc"]
      by (simp add: projectedCount_Cons loopEvents_first [of pc "Suc (pc + projectedCount pr is)"])
  qed
qed

lemma processIssues_silent:
  "fst (processIssues e pr False n issues pc items evs) = evs"
  by (induction issues arbitrary: pc items evs) (auto split: sum.splits)

lemma processIssues_result_total:
  "(\<And>i. pr i = Inr (g i)) \<Longrightarrow> snd (processIssues e pr cb n issues pc items evs) = Inr (pc + length issues, items @ map g issues)"
  by (induction issues arbitrary: pc items evs) auto

lemma processIssues_result_Inr:
  "snd (processIssues e pr cb n issues pc items evs) = Inr (pc', items') \<Longrightarrow>
     pc' = pc + length issues \<and> projectedCount pr issues = length issues"
proof (induction issues arbitrary: pc items evs)
  case Nil
  then show ?case by (simp add: projectedCount_Nil)
next
  case (Cons i "is")
  show ?case
  proof (cases "pr i")
    case (Inl x)
    with Cons.prems show ?thesis by simp
  next
    case (Inr y)
    with Cons.prems have "snd (processIssues e pr cb n is (pc + 1) (items @ [y])
        (if cb \<and> (pc + 1) mod 10 = 0 then evs @ [processingEvent e n (pc + 1)] else evs)) = Inr (pc', items')"
      by simp
    from Cons.IH [OF this] Inr show ?thesis
      by (simp add: projectedCount_Cons)
  qed
qed

lemma processIssues_fst:
  "fst (processIssues e pr cb n issues 0 items evs) = evs @ loopTrace e cb n (projectedCount pr issues)"
  using processIssues_events [of e pr n issues 0 items evs] processIssues_silent [of e pr n issues 0 items evs]
  by (cases cb) (simp_all add: loopTrace_def)

lemma processIssues_total:
  assumes "\<And>i. pr i = Inr (g i)"
  shows "processIssues e pr cb n issues 0 [] evs =
           (evs @ loopTrace e cb n (length issues), Inr (length issues, map g issues))"
proof -
  have "projectedCount pr issues = length issues"
    using assms by (induction issues) (simp_all add: projectedCount_Nil projectedCount_Cons)
  then have "fst (processIssues e pr cb n issues 0 [] evs) = evs @ loopTrace e cb n (length issues)"
    using processIssues_fst [of e pr cb n issues "[]" evs] by simp
  moreover have "snd (processIssues e pr cb n issues 0 [] evs) = Inr (length issues, map g issues)"
    using processIssues_result_total [of pr g e cb n issues 0 "[]" evs] assms by simp
  ultimately show ?thesis
    by (metis prod.collapse)
qed

lemma exportJson_Inr:
  assumes "exportJson e issues config cb evs0 = (evs, saved, Inr u)"
  shows "evs = emit cb (mkEvent e (length issues) (length issues) 100 Complete ''JSON export complete'')
           (emit cb (mkEvent e (length issues) (length issues) 100 Exporting ''Generating JSON...'')
              (evs0 @ loopTrace e cb (length issues) (length issues)))"
  using assms
  unfolding exportJson_def
  by (simp add: processIssues_total [of _ "\<lambda>i. processIssueForJson i config"] mkEvent_def Let_def split: sum.splits)

lemma exportCsv_Inr:
  assumes "exportCsv e issues config cb evs0 = (evs, saved, Inr u)"
  shows "evs = emit cb (mkEvent e (length issues) (length issues) 100 Complete ''CSV export complete'')
           (emit cb (mkEvent e (length issues) (length issues) 100 Exporting ''Generating CSV...'')
              (emit cb (mkEvent e 0 (length issues) 0 Processing ''Preparing CSV export...'') evs0
                 @ loopTrace e cb (length issues) (length issues)))"
  using assms
  unfolding exportCsv_def
  by (simp add: processIssues_total [of _ "\<lambda>i. processIssueForCsv i config"] mkEvent_def Let_def split: sum.splits)

lemma exportToXml_Inr:
  assumes "exportToXml e issues config cb evs0 = (evs, Inr xml)"
  shows "evs = emit cb (mkEvent e (length issues) (length issues) 100 Complete ''Export complete'')
           (emit cb (mkEvent e (length issues) (length issues) 100 Exporting ''Generating XML...'')
              (emit cb (mkEvent e 0 (length issues) 0 Processing ''Preparing XML export...'') evs0
                 @ loopTrace e cb (length issues) (length issues)))"
proof -
  let ?pr = "\<lambda>issue. convertIssueToXml e issue config"
  let ?evsP = "emit cb (mkEvent e 0 (length issues) 0 Processing ''Preparing XML export...'') evs0"
  obtain evs1 r where run: "processIssues e ?pr cb (length issues) issues 0 [] ?evsP = (evs1, r)"
    by (cases "processIssues e ?pr cb (length issues) issues 0 [] ?evsP") auto
  from assms run obtain pc items where r: "r = Inr (pc, items)"
    unfolding exportToXml_def by (cases r) (auto simp: mkEvent_def)
  from run r have "snd (processIssues e ?pr cb (length issues) issues 0 [] ?evsP) = Inr (pc, items)"
    by simp
  from processIssues_result_Inr [OF this]
  have pc: "pc = length issues" and cnt: "projectedCount ?pr issues = length issues"
    by simp_all
  have "evs1 = ?evsP @ loopTrace e cb (length issues) (length issues)"
    using processIssues_fst [of e ?pr cb "length issues" issues "[]" ?evsP] run cnt by simp
  with assms run r pc show ?thesis
    unfolding exportToXml_def
    by (simp add: mkEvent_def Let_def split: sum.splits)
qed

section \<open>Rounding to the nearest double\<close>

lemma roundEven_floor: "\<lfloor>y\<rfloor> \<le> roundEven y \<and> roundEven y \<le> \<lfloor>y\<rfloor> + 1"
  by (simp add: roundEven_def Let_def)

lemma roundEven_of_int: "roundEven (of_int a) = a"
  by (simp add: roundEven_def)

lemma roundEven_ge: "of_int a \<le> y \<Longrightarrow> a \<le> roundEven y"
proof -
  assume "of_int a \<le> y"
  then have "a \<le> \<lfloor>y\<rfloor>" by (simp add: le_floor_iff)
  with roundEven_floor [of y] show ?thesis by linarith
qed

lemma roundEven_le: "y \<le> of_int b \<Longrightarrow> roundEven y \<le> b"
proof -
  assume yb: "y \<le> of_int b"
  show ?thesis
  proof (cases "y = of_int b")
    case True
    then show ?thesis by (simp add: roundEven_of_int)
  next
    case False
    with yb have "y < of_int b" by simp
    then have "\<lfloor>y\<rfloor> < b" by (simp add: floor_less_iff)
    with roundEven_floor [of y] show ?thesis by linarith
  qed
qed

lemma roundEven_mono: "x \<le> y \<Longrightarrow> roundEven x \<le> roundEven y"
proof -
  assume xy: "x \<le> y"
  then have f: "\<lfloor>x\<rfloor> \<le> \<lfloor>y\<rfloor>" by (rule floor_mono)
  show ?thesis
  proof (cases "\<lfloor>x\<rfloor> = \<lfloor>y\<rfloor>")
    case True
    with xy show ?thesis
      by (auto simp: roundEven_def Let_def)
  next
    case False
    with f have "\<lfloor>x\<rfloor> + 1 \<le> \<lfloor>y\<rfloor>" by simp
    moreover have "roundEven x \<le> \<lfloor>x\<rfloor> + 1" using roundEven_floor [of x] by simp
    moreover have "\<lfloor>y\<rfloor> \<le> roundEven y" using roundEven_floor [of y] by simp
    ultimately show ?thesis by linarith
  qed
qed

lemma roundEven_near: "\<bar>of_int (roundEven y) - y\<bar> \<le> 1 / 2"
proof -
  have fl: "of_int \<lfloor>y\<rfloor> \<le> y" "y < of_int \<lfloor>y\<rfloor> + 1" by linarith+
  consider "y - of_int \<lfloor>y\<rfloor> < 1 / 2" | "1 / 2 < y - of_int \<lfloor>y\<rfloor>" | "y - of_int \<lfloor>y\<rfloor> = 1 / 2"
    by linarith
  then show ?thesis
  proof cases
    case 1
    then have "roundEven y = \<lfloor>y\<rfloor>" by (simp add: roundEven_def Let_def)
    with 1 fl show ?thesis by simp
  next
    case 2
    then have "roundEven y = \<lfloor>y\<rfloor> + 1" by (simp add: roundEven_def Let_def)
    with 2 fl show ?thesis by simp
  next
    case 3
    then have "roundEven y = \<lfloor>y\<rfloor> \<or> roundEven y = \<lfloor>y\<rfloor> + 1" by (simp add: roundEven_def Let_def)
    with 3 show ?thesis by auto
  qed
qed

lemma roundEven_tie_even:
  "y - of_int \<lfloor>y\<rfloor> = 1 / 2 \<Longrightarrow> even (roundEven y)"
  by (auto simp: roundEven_def Let_def)

lemma binade_bounds:
  assumes "0 < x"
  shows "2 powi binade x \<le> x \<and> x < 2 powi (binade x + 1)"
proof -
  obtain p q where pq: "quotient_of x = (p, q)" by (cases "quotient_of x") auto
  then have q: "0 < q" and x: "x = of_int p / of_int q"
    by (auto dest: quotient_of_denom_pos quotient_of_div)
  with assms have p: "0 < p" by (simp add: zero_less_divide_iff)
  define d where "d = bitlen p - bitlen q"
  have bp: "(2::rat) powi (bitlen p - 1) \<le> of_int p" "of_int p < (2::rat) powi bitlen p"
  proof -
    from bitlen_bounds [OF p] have "2 ^ nat (bitlen p - 1) \<le> p" "p < 2 ^ nat (bitlen p)" by simp_all
    then have "(of_int (2 ^ nat (bitlen p - 1)) :: rat) \<le> of_int p" "(of_int p :: rat) < of_int (2 ^ nat (bitlen p))"
      by (simp_all only: of_int_le_iff of_int_less_iff)
    moreover have "1 \<le> bitlen p" using p by (simp add: bitlen_alt_def)
    ultimately show "(2::rat) powi (bitlen p - 1) \<le> of_int p" "of_int p < (2::rat) powi bitlen p"
      by (simp_all add: power_int_def bitlen_nonneg)
  qed
  have bq: "(2::rat) powi (bitlen q - 1) \<le> of_int q" "of_int q < (2::rat) powi bitlen q"
  proof -
    from bitlen_bounds [OF q] have "2 ^ nat (bitlen q - 1) \<le> q" "q < 2 ^ nat (bitlen q)" by simp_all
    then have "(of_int (2 ^ nat (bitlen q - 1)) :: rat) \<le> of_int q" "(of_int q :: rat) < of_int (2 ^ nat (bitlen q))"
      by (simp_all only: of_int_le_iff of_int_less_iff)
    moreover have "1 \<le> bitlen q" using q by (simp add: bitlen_alt_def)
    ultimately show "(2::rat) powi (bitlen q - 1) \<le> of_int q" "of_int q < (2::rat) powi bitlen q"
      by (simp_all add: power_int_def bitlen_nonneg)
  qed
  have qpos: "(0::rat) < of_int q" using q by simp
  have lo: "(2::rat) powi (d - 1) \<le> x"
  proof -
    have "(2::rat) powi (d - 1) = 2 powi (bitlen p - 1) / 2 powi bitlen q"
      unfolding d_def by (simp add: power_int_diff [symmetric] algebra_simps)
    also have "\<dots> \<le> of_int p / 2 powi bitlen q"
      using bp(1) by (intro divide_right_mono) simp_all
    also have "\<dots> \<le> of_int p / of_int q"
      using bq(2) p qpos by (intro frac_le) simp_all
    finally show ?thesis by (simp add: x)
  qed
  have hi: "x < (2::rat) powi (d + 1)"
  proof -
    have "x = of_int p / of_int q" by (rule x)
    also have "\<dots> < 2 powi bitlen p / of_int q"
      using bp(2) qpos by (intro divide_strict_right_mono)
    also have "\<dots> \<le> 2 powi bitlen p / 2 powi (bitlen q - 1)"
      using bq(1) by (intro frac_le) simp_all
    also have "\<dots> = 2 powi (d + 1)"
      unfolding d_def by (simp add: power_int_diff [symmetric] algebra_simps)
    finally show ?thesis .
  qed
  have b: "binade x = (if 2 powi d \<le> x then d else d - 1)"
    by (simp add: binade_def pq d_def Let_def)
  show ?thesis
  proof (cases "2 powi d \<le> x")
    case True
    with b hi show ?thesis by simp
  next
    case False
    with b lo show ?thesis by simp
  qed
qed

lemma binade_mono:
  assumes "0 < x" "x \<le> y"
  shows "binade x \<le> binade y"
proof (rule ccontr)
  assume "\<not> binade x \<le> binade y"
  then have "binade y + 1 \<le> binade x" by simp
  then have "(2::rat) powi (binade y + 1) \<le> 2 powi binade x"
    by (intro power_int_increasing) simp_all
  moreover from assms have "0 < y" by simp
  ultimately show False
    using binade_bounds [OF assms(1)] binade_bounds [OF \<open>0 < y\<close>] assms(2) by linarith
qed

lemma roundPositive_low:
  assumes "0 < x"
  shows "2 powi binade x \<le> roundPositive x"
proof -
  let ?u = "(2::rat) powi (binade x - 52)"
  have u: "0 < ?u" by simp
  have "2 powi binade x = of_int (2 ^ 52) * ?u"
    by (simp add: power_int_diff)
  moreover have "of_int (2 ^ 52) \<le> x / ?u"
    using binade_bounds [OF assms] by (simp add: power_int_diff field_simps)
  then have "(2 ^ 52 :: int) \<le> roundEven (x / ?u)"
    by (rule roundEven_ge)
  then have "(of_int (2 ^ 52) :: rat) \<le> of_int (roundEven (x / ?u))"
    by (simp only: of_int_le_iff)
  then have "of_int (2 ^ 52) * ?u \<le> of_int (roundEven (x / ?u)) * ?u"
    using u by (intro mult_right_mono) simp_all
  ultimately show ?thesis
    by (simp add: roundPositive_def)
qed

lemma roundPositive_high:
  assumes "0 < x"
  shows "roundPositive x \<le> 2 powi (binade x + 1)"
proof -
  let ?u = "(2::rat) powi (binade x - 52)"
  have u: "0 < ?u" by simp
  have e: "2 powi (binade x + 1) = of_int (2 ^ 53) * ?u"
    by (simp add: power_int_diff power_int_add)
  have "x / ?u \<le> of_int (2 ^ 53)"
    using binade_bounds [OF assms] by (simp add: power_int_diff power_int_add field_simps)
  then have "roundEven (x / ?u) \<le> 2 ^ 53"
    by (rule roundEven_le)
  then have "(of_int (roundEven (x / ?u)) :: rat) \<le> of_int (2 ^ 53)"
    by (simp only: of_int_le_iff)
  then have "of_int (roundEven (x / ?u)) * ?u \<le> of_int (2 ^ 53) * ?u"
    using u by (intro mult_right_mono) simp_all
  with e show ?thesis
    by (simp add: roundPositive_def)
qed

lemma roundPositive_mono:
  assumes "0 < x" "x \<le> y"
  shows "roundPositive x \<le> roundPositive y"
proof -
  from assms have y: "0 < y" by simp
  show ?thesis
  proof (cases "binade x = binade y")
    case True
    let ?u = "(2::rat) powi (binade y - 52)"
    have "x / ?u \<le> y / ?u"
      using assms(2) by (intro divide_right_mono) simp_all
    then have "roundEven (x / ?u) \<le> roundEven (y / ?u)"
      by (rule roundEven_mono)
    then have "(of_int (roundEven (x / ?u)) :: rat) \<le> of_int (roundEven (y / ?u))"
      by (simp only: of_int_le_iff)
    then have "of_int (roundEven (x / ?u)) * ?u \<le> of_int (roundEven (y / ?u)) * ?u"
      by (intro mult_right_mono) simp_all
    with True show ?thesis
      by (simp add: roundPositive_def)
  next
    case False
    with binade_mono [OF assms] have "binade x + 1 \<le> binade y" by simp
    then have "(2::rat) powi (binade x + 1) \<le> 2 powi binade y"
      by (intro power_int_increasing) simp_all
    with roundPositive_high [OF assms(1)] roundPositive_low [OF y] show ?thesis
      by linarith
  qed
qed

lemma roundPositive_pos: "0 < x \<Longrightarrow> 0 < roundPositive x"
proof -
  assume "0 < x"
  from roundPositive_low [OF this] have "2 powi binade x \<le> roundPositive x" .
  moreover have "(0::rat) < 2 powi binade x" by simp
  ultimately show ?thesis by linarith
qed

lemma toDouble_nonneg: "0 \<le> x \<Longrightarrow> 0 \<le> toDouble x"
  using roundPositive_pos [of x] by (auto simp: toDouble_def less_imp_le)

lemma toDouble_mono:
  assumes "0 \<le> x" "x \<le> y"
  shows "toDouble x \<le> toDouble y"
proof (cases "x = 0")
  case True
  with assms toDouble_nonneg [of y] show ?thesis by (simp add: toDouble_def)
next
  case False
  with assms have "0 < x" "0 < y" by simp_all
  with roundPositive_mono [OF \<open>0 < x\<close> assms(2)] show ?thesis
    by (simp add: toDouble_def)
qed

lemma toDouble_1: "toDouble 1 = 1"
  by code_simp

lemma toDouble_100: "toDouble 100 = 100"
  by code_simp

lemma roundPositive_near:
  "\<bar>roundPositive x - x\<bar> \<le> 2 powi (binade x - 53)"
proof -
  let ?u = "(2::rat) powi (binade x - 52)"
  have u: "0 < ?u" by simp
  have "roundPositive x - x = (of_int (roundEven (x / ?u)) - x / ?u) * ?u"
    using u by (simp add: roundPositive_def left_diff_distrib)
  then have "\<bar>roundPositive x - x\<bar> = \<bar>of_int (roundEven (x / ?u)) - x / ?u\<bar> * ?u"
    using u by (simp only: abs_mult abs_of_pos)
  also have "\<dots> \<le> 1 / 2 * ?u"
    using roundEven_near [of "x / ?u"] u by (intro mult_right_mono) simp_all
  also have "\<dots> = 2 powi (binade x - 53)"
    by (simp add: power_int_diff)
  finally show ?thesis .
qed

lemma toDouble_of_int:
  assumes "\<bar>i\<bar> < 2 ^ 53"
  shows "toDouble (of_int i) = of_int i"
proof -
  have pos: "roundPositive (of_int j) = of_int j" if j: "0 < j" "j < 2 ^ 53" for j :: int
  proof -
    let ?x = "of_int j :: rat"
    let ?b = "binade ?x"
    have x: "0 < ?x" using j by simp
    from binade_bounds [OF x] have lo: "2 powi ?b \<le> ?x" and hi: "?x < 2 powi (?b + 1)" by simp_all
    have "?b \<le> 52"
    proof (rule ccontr)
      assume "\<not> ?b \<le> 52"
      then have "(2::rat) powi 53 \<le> 2 powi ?b"
        by (intro power_int_increasing) simp_all
      with lo have "(2::rat) powi 53 \<le> ?x" by linarith
      moreover have "?x < of_int (2 ^ 53)" using j by (simp only: of_int_less_iff)
      ultimately show False by simp
    qed
    then obtain m where m: "52 - ?b = int m"
      by (metis diff_ge_0_iff_ge nonneg_int_cases)
    then have "?b - 52 = - int m" by simp
    then have p: "(2::rat) powi (?b - 52) = 1 / 2 ^ m"
      by (simp only: power_int_minus power_int_of_nat inverse_eq_divide)
    then have "?x / 2 powi (?b - 52) = of_int (j * 2 ^ m)"
      by simp
    then have "roundPositive ?x = of_int (j * 2 ^ m) * 2 powi (?b - 52)"
      by (simp only: roundPositive_def roundEven_of_int)
    also have "\<dots> = ?x"
      by (simp add: p)
    finally show ?thesis .
  qed
  consider "i = 0" | "0 < i" | "i < 0" by linarith
  then show ?thesis
  proof cases
    case 1
    then show ?thesis by (simp add: toDouble_def)
  next
    case 2
    with assms pos [of i] show ?thesis by (simp add: toDouble_def)
  next
    case 3
    with assms pos [of "- i"] show ?thesis by (simp add: toDouble_def)
  qed
qed

section \<open>Percentages\<close>

lemma mathRound_mono: "x \<le> y \<Longrightarrow> mathRound x \<le> mathRound y"
  by (simp add: mathRound_def floor_mono)

lemma mathRound_of_int: "mathRound (of_int i) = i"
  unfolding mathRound_def by (rule floor_unique) simp_all

lemma mathRound_round: "mathRound x = round x"
  by (simp add: mathRound_def round_def)

lemma percentage_le_100:
  assumes "k \<le> n" "0 < n"
  shows "pct n k \<le> 100"
proof -
  have "(of_nat k :: rat) / of_nat n \<le> 1"
    using assms by simp
  moreover have "(0::rat) \<le> of_nat k / of_nat n" by simp
  ultimately have "toDouble (of_nat k / of_nat n) \<le> toDouble 1"
    by (intro toDouble_mono)
  then have "toDouble (of_nat k / of_nat n) \<le> 1"
    by (simp only: toDouble_1)
  then have "toDouble (of_nat k / of_nat n) * 100 \<le> 1 * 100"
    by (rule mult_right_mono) simp
  then have le: "toDouble (of_nat k / of_nat n) * 100 \<le> 100"
    by simp
  have "0 \<le> toDouble (of_nat k / of_nat n)"
    by (rule toDouble_nonneg) simp
  then have "0 \<le> toDouble (of_nat k / of_nat n) * 100"
    by simp
  with le have "toDouble (toDouble (of_nat k / of_nat n) * 100) \<le> toDouble 100"
    by (intro toDouble_mono)
  then have "toDouble (toDouble (of_nat k / of_nat n) * 100) \<le> of_int 100"
    by (simp only: toDouble_100 of_int_numeral)
  then have "mathRound (toDouble (toDouble (of_nat k / of_nat n) * 100)) \<le> mathRound (of_int 100)"
    by (rule mathRound_mono)
  then show ?thesis
    unfolding pct_def mathRound_of_int .
qed

lemma percentage_ge_0: "0 \<le> pct n k"
proof -
  have "0 \<le> toDouble (of_nat k / of_nat n)"
    by (rule toDouble_nonneg) simp
  then have "0 \<le> toDouble (of_nat k / of_nat n) * 100"
    by simp
  then have "0 \<le> toDouble (toDouble (of_nat k / of_nat n) * 100)"
    by (rule toDouble_nonneg)
  then have "of_int 0 \<le> toDouble (toDouble (of_nat k / of_nat n) * 100)"
    by simp
  then have "mathRound (of_int 0) \<le> mathRound (toDouble (toDouble (of_nat k / of_nat n) * 100))"
    by (rule mathRound_mono)
  then show ?thesis
    unfolding pct_def mathRound_of_int .
qed

lemma percentage_mono:
  assumes "k \<le> k'"
  shows "pct n k \<le> pct n k'"
proof -
  have q: "(of_nat k :: rat) / of_nat n \<le> of_nat k' / of_nat n"
    using assms by (intro divide_right_mono) simp_all
  have "(0::rat) \<le> of_nat k / of_nat n" by simp
  from toDouble_mono [OF this q]
  have "toDouble (of_nat k / of_nat n) * 100 \<le> toDouble (of_nat k' / of_nat n) * 100"
    by (rule mult_right_mono) simp
  moreover have "0 \<le> toDouble (of_nat k / of_nat n) * 100"
    using toDouble_nonneg [of "of_nat k / of_nat n"] by simp
  ultimately have "toDouble (toDouble (of_nat k / of_nat n) * 100)
      \<le> toDouble (toDouble (of_nat k' / of_nat n) * 100)"
    by (intro toDouble_mono)
  then show ?thesis
    unfolding pct_def by (rule mathRound_mono)
qed

lemma pct_full: "0 < n \<Longrightarrow> pct n n = 100"
  using mathRound_of_int [of 100] by (simp add: pct_def toDouble_1 toDouble_100)

lemma processingEvent_simps:
  "current (processingEvent e n k) = k"
  "total (processingEvent e n k) = n"
  "percentage (processingEvent e n k) = pct n k"
  "stage (processingEvent e n k) = Processing"
  by (simp_all add: processingEvent_def Let_def pct_def)

lemma current_loopEvents:
  "map current (loopEvents e n lo hi) = filter (\<lambda>k. k mod 10 = 0) [Suc lo ..< Suc hi]"
  by (simp add: loopEvents_def processingEvent_simps comp_def del: upt_Suc)

lemma percentage_loopEvents:
  "map percentage (loopEvents e n lo hi) =
     map (pct n) (filter (\<lambda>k. k mod 10 = 0) [Suc lo ..< Suc hi])"
  by (simp add: loopEvents_def processingEvent_simps comp_def del: upt_Suc)

lemma sorted_current_loopEvents: "sorted (map current (loopEvents e n lo hi))"
  unfolding current_loopEvents by (rule sorted_wrt_filter [OF sorted_upt])

lemma sorted_percentage_loopEvents: "sorted (map percentage (loopEvents e n lo hi))"
proof -
  have "sorted (filter (\<lambda>k. k mod 10 = 0) [Suc lo ..< Suc hi])"
    by (rule sorted_wrt_filter [OF sorted_upt])
  then have "sorted_wrt (\<lambda>k k'. pct n k \<le> pct n k')
      (filter (\<lambda>k. k mod 10 = 0) [Suc lo ..< Suc hi])"
    by (rule sorted_wrt_mono_rel [rotated]) (simp add: percentage_mono)
  then show ?thesis
    unfolding percentage_loopEvents by (simp add: sorted_map)
qed

lemma loopEvents_bounds:
  assumes "p \<in> set (loopEvents e n 0 n)"
  shows "current p \<le> n \<and> total p = n \<and> 0 \<le> percentage p \<and> percentage p \<le> 100"
proof -
  from assms obtain k where k: "p = processingEvent e n k" "1 \<le> k" "k \<le> n"
    by (auto simp: loopEvents_def simp del: upt_Suc)
  then have "0 < n" by simp
  with k show ?thesis
    by (simp add: processingEvent_simps percentage_le_100 percentage_ge_0)
qed

section \<open>Failing runs\<close>

lemma failedEvents_Nil: "failedEvents [] = []"
  by (simp add: failedEvents_def)

lemma failedEvents_append: "failedEvents (xs @ ys) = failedEvents xs @ failedEvents ys"
  by (simp add: failedEvents_def)

lemma failedEvents_emit:
  "failedEvents (emit cb p evs) = failedEvents evs @ (if cb \<and> stage p = Failed then [p] else [])"
  by (simp add: failedEvents_def emit_def)

lemma failedEvents_loopTrace: "failedEvents (loopTrace e cb n m) = []"
  by (simp add: failedEvents_def loopTrace_def loopEvents_def processingEvent_simps del: upt_Suc)

lemma processIssues_failedEvents:
  "failedEvents (fst (processIssues e pr cb n issues 0 items evs)) = failedEvents evs"
  by (simp add: processIssues_fst failedEvents_append failedEvents_loopTrace)

lemma exportJson_failure:
  assumes "exportJson e issues config cb evs0 = (evs, saved, r)"
  shows "failedEvents evs = failedEvents evs0 \<and> (isl r \<longrightarrow> saved = [])"
proof -
  let ?run = "processIssues e (\<lambda>issue. Inr (processIssueForJson issue config)) cb (length issues) issues 0 [] evs0"
  have "failedEvents (fst ?run) = failedEvents evs0"
    by (rule processIssues_failedEvents)
  with assms show ?thesis
    unfolding exportJson_def
    by (cases ?run) (auto simp: Let_def failedEvents_emit split: sum.splits)
qed

lemma exportCsv_failure:
  assumes "exportCsv e issues config cb evs0 = (evs, saved, r)"
  shows "failedEvents evs = failedEvents evs0 \<and> (isl r \<longrightarrow> saved = [])"
proof -
  let ?evsP = "emit cb \<lparr>current = 0, total = length issues, percentage = 0,
                 stage = Processing, message = ''Preparing CSV export...'',
                 startTime = formatStart e, estimatedTimeRemaining = None\<rparr> evs0"
  let ?run = "processIssues e (\<lambda>issue. Inr (processIssueForCsv issue config)) cb (length issues) issues 0 [] ?evsP"
  have "failedEvents (fst ?run) = failedEvents ?evsP"
    by (rule processIssues_failedEvents)
  then have "failedEvents (fst ?run) = failedEvents evs0"
    by (simp add: failedEvents_emit)
  with assms show ?thesis
    unfolding exportCsv_def
    by (cases ?run) (auto simp: Let_def failedEvents_emit split: sum.splits)
qed

lemma exportToXml_failure:
  assumes "exportToXml e issues config cb evs0 = (evs, r)"
  shows "failedEvents evs = failedEvents evs0"
proof -
  let ?evsP = "emit cb \<lparr>current = 0, total = length issues, percentage = 0,
                 stage = Processing, message = ''Preparing XML export...'',
                 startTime = formatStart e, estimatedTimeRemaining = None\<rparr> evs0"
  let ?run = "processIssues e (\<lambda>issue. convertIssueToXml e issue config) cb (length issues) issues 0 [] ?evsP"
  have "failedEvents (fst ?run) = failedEvents ?evsP"
    by (rule processIssues_failedEvents)
  then have "failedEvents (fst ?run) = failedEvents evs0"
    by (simp add: failedEvents_emit)
  with assms show ?thesis
    unfolding exportToXml_def
    by (cases ?run) (auto simp: Let_def failedEvents_emit split: sum.splits)
qed

lemma exportXml_failure:
  assumes "exportXml e issues config cb evs0 = (evs, saved, r)"
  shows "failedEvents evs = failedEvents evs0 \<and> (isl r \<longrightarrow> saved = [])"
  using assms exportToXml_failure [of e issues config cb evs0]
  unfolding exportXml_def
  by (cases "exportToXml e issues config cb evs0") (auto split: sum.splits)

lemma dispatch_failure:
  assumes "(if format config = ''xml'' then exportXml e issues config cb evs0
            else if format config = ''json'' then exportJson e issues config cb evs0
            else if format config = ''csv'' then exportCsv e issues config cb evs0
            else (evs0, [], Inl (Error (''Unsupported export format: '' @ format config)))) = (evs, saved, r)"
  shows "failedEvents evs = failedEvents evs0 \<and> (isl r \<longrightarrow> saved = [])"
  using assms exportXml_failure [of e issues config cb evs0 evs saved r]
    exportJson_failure [of e issues config cb evs0 evs saved r]
    exportCsv_failure [of e issues config cb evs0 evs saved r]
  by (auto split: if_splits)

section \<open>Growth of the event list\<close>

lemma emit_length: "length evs \<le> length (emit cb p evs)"
  by (simp add: emit_def)

lemma processIssues_length:
  "length evs \<le> length (fst (processIssues e pr cb n issues 0 items evs))"
  by (simp add: processIssues_fst)

lemma exportJson_grows:
  assumes "exportJson e issues config cb evs0 = (evs, saved, r)"
  shows "length evs0 \<le> length evs"
proof -
  let ?run = "processIssues e (\<lambda>issue. Inr (processIssueForJson issue config)) cb (length issues) issues 0 [] evs0"
  have "length evs0 \<le> length (fst ?run)"
    by (rule processIssues_length)
  with assms show ?thesis
    unfolding exportJson_def
    by (cases ?run) (auto simp: Let_def emit_def split: sum.splits if_splits)
qed

lemma exportCsv_grows:
  assumes "exportCsv e issues config cb evs0 = (evs, saved, r)"
  shows "length evs0 \<le> length evs"
proof -
  let ?evsP = "emit cb \<lparr>current = 0, total = length issues, percentage = 0,
                 stage = Processing, message = ''Preparing CSV export...'',
                 startTime = formatStart e, estimatedTimeRemaining = None\<rparr> evs0"
  let ?run = "processIssues e (\<lambda>issue. Inr (processIssueForCsv issue config)) cb (length issues) issues 0 [] ?evsP"
  have "length ?evsP \<le> length (fst ?run)"
    by (rule processIssues_length)
  then have "length evs0 \<le> length (fst ?run)"
    using emit_length [of evs0 cb] order_trans by blast
  with assms show ?thesis
    unfolding exportCsv_def
    by (cases ?run) (auto simp: Let_def emit_def split: sum.splits if_splits)
qed

lemma exportXml_grows:
  assumes "exportXml e issues config cb evs0 = (evs, saved, r)"
  shows "length evs0 \<le> length evs"
proof -
  let ?evsP = "emit cb \<lparr>current = 0, total = length issues, percentage = 0,
                 stage = Processing, message = ''Preparing XML export...'',
                 startTime = formatStart e, estimatedTimeRemaining = None\<rparr> evs0"
  let ?run = "processIssues e (\<lambda>issue. convertIssueToXml e issue config) cb (length issues) issues 0 [] ?evsP"
  have "length ?evsP \<le> length (fst ?run)"
    by (rule processIssues_length)
  then have "length evs0 \<le> length (fst ?run)"
    using emit_length [of evs0 cb] order_trans by blast
  with assms show ?thesis
    unfolding exportXml_def exportToXml_def
    by (cases ?run) (auto simp: Let_def emit_def split: sum.splits if_splits)
qed

section \<open>Successful runs\<close>

lemma sorted_zero_prefix:
  fixes f :: "'a \<Rightarrow> 'b::{linorder,zero}"
  assumes "\<And>p. p \<in> set pre \<Longrightarrow> f p = 0" "\<And>q. q \<in> set rest \<Longrightarrow> 0 \<le> f q" "sorted (map f rest)"
  shows "sorted (map f (pre @ rest))"
  using assms
proof (induction pre)
  case Nil
  then show ?case by simp
next
  case (Cons a pre)
  then have "sorted (map f (pre @ rest))" by simp
  moreover have "f a = 0" using Cons.prems(1) by simp
  moreover have "\<And>y. y \<in> set (pre @ rest) \<Longrightarrow> 0 \<le> f y"
    using Cons.prems(1,2) by fastforce
  ultimately show ?case by auto
qed

lemma mkEvent_simps:
  "current (mkEvent e c n p st m) = c"
  "total (mkEvent e c n p st m) = n"
  "percentage (mkEvent e c n p st m) = p"
  "stage (mkEvent e c n p st m) = st"
  by (simp_all add: mkEvent_def)

lemma tail_current_sorted:
  "sorted (map current (loopEvents e n 0 n @ [mkEvent e n n 100 Exporting m1, mkEvent e n n 100 Complete m2]))"
proof -
  have "\<And>p. p \<in> set (loopEvents e n 0 n) \<Longrightarrow> current p \<le> n"
    using loopEvents_bounds by blast
  then show ?thesis
    by (simp add: sorted_append mkEvent_simps sorted_current_loopEvents)
qed

lemma tail_percentage_sorted:
  "sorted (map percentage (loopEvents e n 0 n @ [mkEvent e n n 100 Exporting m1, mkEvent e n n 100 Complete m2]))"
proof -
  have "\<And>p. p \<in> set (loopEvents e n 0 n) \<Longrightarrow> percentage p \<le> 100"
    using loopEvents_bounds by blast
  then show ?thesis
    by (simp add: sorted_append mkEvent_simps sorted_percentage_loopEvents)
qed

lemma tail_percentage_nonneg:
  assumes "q \<in> set (loopEvents e n 0 n @ [mkEvent e n n 100 Exporting m1, mkEvent e n n 100 Complete m2])"
  shows "0 \<le> percentage q"
proof -
  from assms consider "q \<in> set (loopEvents e n 0 n)" | "q = mkEvent e n n 100 Exporting m1"
    | "q = mkEvent e n n 100 Complete m2"
    by auto
  then show ?thesis
  proof cases
    case 1
    then show ?thesis using loopEvents_bounds by blast
  qed (simp_all add: mkEvent_simps)
qed

lemma tail_within_total:
  assumes "q \<in> set (loopEvents e n 0 n @ [mkEvent e n n 100 Exporting m1, mkEvent e n n 100 Complete m2])"
  shows "current q \<le> total q"
proof -
  from assms consider "q \<in> set (loopEvents e n 0 n)" | "q = mkEvent e n n 100 Exporting m1"
    | "q = mkEvent e n n 100 Complete m2"
    by auto
  then show ?thesis
  proof cases
    case 1
    then show ?thesis using loopEvents_bounds [of q e n] by simp
  qed (simp_all add: mkEvent_simps)
qed

lemma trace_shape:
  fixes e :: env and m1 m2 :: string and n :: nat and pre :: "ProgressInfo list"
  assumes pre: "\<And>p. p \<in> set pre \<Longrightarrow> current p = 0 \<and> percentage p = 0 \<and> total p = n"
  assumes evs: "evs = pre @ loopEvents e n 0 n @ [mkEvent e n n 100 Exporting m1, mkEvent e n n 100 Complete m2]"
  shows "sorted (map current evs) \<and> list_all (\<lambda>p. current p \<le> total p) evs
         \<and> sorted (map percentage evs) \<and> evs \<noteq> []
         \<and> percentage (last evs) = 100 \<and> stage (last evs) = Complete"
proof -
  let ?rest = "loopEvents e n 0 n @ [mkEvent e n n 100 Exporting m1, mkEvent e n n 100 Complete m2]"
  have c: "sorted (map current (pre @ ?rest))"
  proof (rule sorted_zero_prefix)
    show "sorted (map current ?rest)" by (rule tail_current_sorted)
  qed (simp_all add: pre)
  have p: "sorted (map percentage (pre @ ?rest))"
  proof (rule sorted_zero_prefix)
    show "sorted (map percentage ?rest)" by (rule tail_percentage_sorted)
    show "\<And>q. q \<in> set ?rest \<Longrightarrow> 0 \<le> percentage q"
      by (rule tail_percentage_nonneg)
  qed (simp add: pre)
  have t: "list_all (\<lambda>p. current p \<le> total p) (pre @ ?rest)"
    unfolding list_all_iff
  proof
    fix q assume "q \<in> set (pre @ ?rest)"
    then consider "q \<in> set pre" | "q \<in> set ?rest" by auto
    then show "current q \<le> total q"
    proof cases
      case 1 then show ?thesis using pre by simp
    next
      case 2 then show ?thesis by (rule tail_within_total)
    qed
  qed
  have "pre @ ?rest \<noteq> [] \<and> last (pre @ ?rest) = mkEvent e n n 100 Complete m2"
    by simp
  with c p t show ?thesis
    unfolding evs by (simp add: mkEvent_simps)
qed

lemma export_Inr_dispatch:
  assumes "export e issues config cb = (evs, saved, Inr u)"
  shows "(format config = ''xml'' \<and>
            exportXml e issues config cb (emit cb (startEvent e (length issues) (format config)) []) = (evs, saved, Inr u))
       \<or> (format config = ''json'' \<and>
            exportJson e issues config cb (emit cb (startEvent e (length issues) (format config)) []) = (evs, saved, Inr u))
       \<or> (format config = ''csv'' \<and>
            exportCsv e issues config cb (emit cb (startEvent e (length issues) (format config)) []) = (evs, saved, Inr u))"
proof -
  let ?evs0 = "emit cb (startEvent e (length issues) (format config)) []"
  let ?d = "(if format config = ''xml'' then exportXml e issues config cb ?evs0
            else if format config = ''json'' then exportJson e issues config cb ?evs0
            else if format config = ''csv'' then exportCsv e issues config cb ?evs0
            else (?evs0, [], Inl (Error (''Unsupported export format: '' @ format config))))"
  obtain evs1 saved1 r where d1: "?d = (evs1, saved1, r)"
    by (cases ?d) auto
  from assms d1 have "r = Inr u \<and> evs1 = evs \<and> saved1 = saved"
    unfolding export_def Let_def by (cases r) auto
  with d1 have d: "?d = (evs, saved, Inr u)"
    by simp
  show ?thesis
  proof (cases "format config = ''xml''")
    case True
    with d show ?thesis by simp
  next
    case nx: False
    show ?thesis
    proof (cases "format config = ''json''")
      case True
      with d nx show ?thesis by simp
    next
      case nj: False
      show ?thesis
      proof (cases "format config = ''csv''")
        case True
        with d nx nj show ?thesis by simp
      next
        case False
        with d nx nj show ?thesis by simp
      qed
    qed
  qed
qed

lemma export_Inr_trace:
  assumes "export e issues config True = (evs, saved, Inr u)"
  shows "\<exists>pre m1 m2. (\<forall>p. p \<in> set pre \<longrightarrow> current p = 0 \<and> percentage p = 0 \<and> total p = length issues)
           \<and> evs = pre @ loopEvents e (length issues) 0 (length issues)
                     @ [mkEvent e (length issues) (length issues) 100 Exporting m1,
                        mkEvent e (length issues) (length issues) 100 Complete m2]"
proof -
  let ?n = "length issues"
  let ?s = "startEvent e ?n (format config)"
  have s0: "current ?s = 0 \<and> percentage ?s = 0 \<and> total ?s = ?n"
    by (simp add: startEvent_def)
  from export_Inr_dispatch [OF assms]
  consider (xml) "exportXml e issues config True (emit True ?s []) = (evs, saved, Inr u)"
    | (json) "exportJson e issues config True (emit True ?s []) = (evs, saved, Inr u)"
    | (csv) "exportCsv e issues config True (emit True ?s []) = (evs, saved, Inr u)"
    by blast
  then show ?thesis
  proof cases
    case xml
    then obtain xmlText where "exportToXml e issues config True (emit True ?s []) = (evs, Inr xmlText)"
      unfolding exportXml_def
      by (cases "exportToXml e issues config True (emit True ?s [])") (auto split: sum.splits)
    from exportToXml_Inr [OF this]
    have "evs = [?s, mkEvent e 0 ?n 0 Processing ''Preparing XML export...'']
            @ loopEvents e ?n 0 ?n
            @ [mkEvent e ?n ?n 100 Exporting ''Generating XML...'',
               mkEvent e ?n ?n 100 Complete ''Export complete'']"
      by (simp add: emit_def loopTrace_def)
    moreover have "\<forall>p. p \<in> set [?s, mkEvent e 0 ?n 0 Processing ''Preparing XML export...''] \<longrightarrow>
        current p = 0 \<and> percentage p = 0 \<and> total p = ?n"
      using s0 by (auto simp: mkEvent_simps)
    ultimately show ?thesis by (intro exI conjI)
  next
    case json
    from exportJson_Inr [OF this]
    have "evs = [?s] @ loopEvents e ?n 0 ?n
            @ [mkEvent e ?n ?n 100 Exporting ''Generating JSON...'',
               mkEvent e ?n ?n 100 Complete ''JSON export complete'']"
      by (simp add: emit_def loopTrace_def)
    moreover have "\<forall>p. p \<in> set [?s] \<longrightarrow> current p = 0 \<and> percentage p = 0 \<and> total p = ?n"
      using s0 by simp
    ultimately show ?thesis by (intro exI conjI)
  next
    case csv
    from exportCsv_Inr [OF this]
    have "evs = [?s, mkEvent e 0 ?n 0 Processing ''Preparing CSV export...'']
            @ loopEvents e ?n 0 ?n
            @ [mkEvent e ?n ?n 100 Exporting ''Generating CSV...'',
               mkEvent e ?n ?n 100 Complete ''CSV export complete'']"
      by (simp add: emit_def loopTrace_def)
    moreover have "\<forall>p. p \<in> set [?s, mkEvent e 0 ?n 0 Processing ''Preparing CSV export...''] \<longrightarrow>
        current p = 0 \<and> percentage p = 0 \<and> total p = ?n"
      using s0 by (auto simp: mkEvent_simps)
    ultimately show ?thesis by (intro exI conjI)
  qed
qed

section \<open>Sample runs\<close>

lemma upt_1_11: "[Suc 0 ..< Suc 10] = [1, 2, 3, 4, 5, 6, 7, 8, 9, 10]"
  by code_simp

lemma loopEvents_ten: "loopEvents e n 0 10 = [processingEvent e n 10]"
  unfolding loopEvents_def upt_1_11 by simp

lemma ten_run:
  "processIssues e (\<lambda>issue. Inr (g issue)) True 10 (replicate 10 i) 0 [] evs =
     (evs @ [processingEvent e 10 10], Inr (10, replicate 10 (g i)))"
  using processIssues_total [of "\<lambda>issue. Inr (g issue)" g e True 10 "replicate 10 i" evs]
  by (simp add: loopTrace_def loopEvents_ten)

lemma failing_ten_run:
  "export failingEnv (replicate 10 bareIssue) (flagsOff ''json'' []) True =
     ([startEvent failingEnv 10 ''json'',
       processingEvent failingEnv 10 10,
       mkEvent failingEnv 10 10 100 Exporting ''Generating JSON...'',
       errorEvent failingEnv 10 (Error ''Invalid string length'')],
      [], Inl (Error ''Invalid string length''))"
  by (simp add: export_def exportJson_def ten_run emit_def flagsOff_def failingEnv_def sampleEnv_def
      mkEvent_def Let_def)

lemma pct_ten: "pct 10 10 = 100"
  by code_simp

lemma sample_filename: "exportFilename sampleEnv ext = ''jira-export-2024-01-02'' @ ext"
  by (simp add: exportFilename_def sampleEnv_def)

lemma empty_csv_run:
  "export sampleEnv [] (flagsOff ''csv'' []) True =
     ([startEvent sampleEnv 0 ''csv'',
       mkEvent sampleEnv 0 0 0 Processing ''Preparing CSV export...'',
       mkEvent sampleEnv 0 0 100 Exporting ''Generating CSV...'',
       mkEvent sampleEnv 0 0 100 Complete ''CSV export complete''],
      [\<lparr>art_content = [], art_filename = ''jira-export-2024-01-02.csv'',
        art_mimeType = ''text/csv;charset=utf-8''\<rparr>],
      Inr ())"
proof -
  have "papaUnparse sampleEnv [] = Inr []"
    by (simp add: sampleEnv_def papaUnparseModel_def)
  then show ?thesis
    by (simp add: export_def exportCsv_def emit_def flagsOff_def mkEvent_def Let_def sample_filename)
qed

section \<open>The projected records\<close>

lemma json_keys:
  "objKeys (processIssueForJson issue config) = jsonCoreKeys
     @ (if includeComments config \<and> comment (issue_fields issue) \<noteq> None then [''comments''] else [])
     @ (if includeAttachments config \<and> attachment (issue_fields issue) \<noteq> None then [''attachments''] else [])
     @ (if includeWorklog config \<and> worklog (issue_fields issue) \<noteq> None then [''worklogs''] else [])
     @ (if includeSubtasks config \<and> subtasks (issue_fields issue) \<noteq> None then [''subtasks''] else [])
     @ (if includeLinks config \<and> issuelinks (issue_fields issue) \<noteq> None then [''issueLinks''] else [])
     @ (if parent (issue_fields issue) \<noteq> None then [''parent''] else [])"
  by (simp add: processIssueForJson_def jsonCoreKeys_def Let_def split: option.splits)

lemma csv_keys:
  "objKeys (processIssueForCsv issue config) = csvCoreKeys
     @ (if parent (issue_fields issue) \<noteq> None then [''Parent Key'', ''Parent Summary''] else [])
     @ (if includeSubtasks config \<and> subtasks (issue_fields issue) \<noteq> None then [''Subtasks Count'', ''Subtasks''] else [])
     @ (if includeComments config \<and> comment (issue_fields issue) \<noteq> None then [''Comments Count''] else [])
     @ (if includeAttachments config \<and> attachment (issue_fields issue) \<noteq> None then [''Attachments Count''] else [])
     @ (if includeWorklog config \<and> worklog (issue_fields issue) \<noteq> None
        then [''Worklog Count'', ''Total Time Spent (seconds)'', ''Total Time Spent (hours)''] else [])"
  by (simp add: processIssueForCsv_def csvCoreKeys_def Let_def split: option.splits)

lemma xml_base_keys:
  "map fst (xmlIssueBase issue config) = xmlCoreKeys
     @ (if includeComments config \<and> comment (issue_fields issue) \<noteq> None then [''comments''] else [])
     @ (if includeAttachments config \<and> attachment (issue_fields issue) \<noteq> None then [''attachments''] else [])
     @ (if includeWorklog config \<and> worklog (issue_fields issue) \<noteq> None then [''worklogs''] else [])
     @ (if includeSubtasks config \<and> subtasks (issue_fields issue) \<noteq> None then [''subtasks''] else [])
     @ (if parent (issue_fields issue) \<noteq> None then [''parent''] else [])
     @ (if includeLinks config \<and> issuelinks (issue_fields issue) \<noteq> None then [''issuelinks''] else [])"
  by (simp add: xmlIssueBase_def xmlCoreKeys_def Let_def split: option.splits)

lemma convert_Inr:
  assumes "convertIssueToXml e issue config = Inr x"
  shows "\<exists>cf. x = JObj (xmlIssueBase issue config @ cf)
           \<and> (cf = [] \<or> (\<exists>r. r \<noteq> [] \<and> cf = [(''customfields'', JObj r)]))
           \<and> (includeFields config = [] \<longrightarrow> cf = [])
           \<and> (includeFields config \<noteq> [] \<longrightarrow>
                (\<exists>r. collectCustomFields e (issue_fields issue) (includeFields config) [] = Inr r
                     \<and> cf = (if r \<noteq> [] then [(''customfields'', JObj r)] else [])))"
  using assms unfolding convertIssueToXml_def
  by (auto split: if_splits sum.splits)

lemma getProp_base:
  assumes "convertIssueToXml e issue config = Inr x" "map_of (xmlIssueBase issue config) k = Some v"
  shows "getProp x k = v"
proof -
  from convert_Inr [OF assms(1)] obtain cf where "x = JObj (xmlIssueBase issue config @ cf)"
    by blast
  with assms(2) show ?thesis
    by (simp add: map_add_def)
qed

lemma xml_base_priority:
  "map_of (xmlIssueBase issue config) ''priority'' = Some (case priority (issue_fields issue) of
       Some p \<Rightarrow> JObj [(''@_id'', JStr (priority_id p)), (''@_iconUrl'', JStr (priority_iconUrl p)),
                      (''#text'', JStr (priority_name p))]
     | None \<Rightarrow> JUndefined)"
  by (simp add: xmlIssueBase_def Let_def)

lemma xml_base_resolution:
  "map_of (xmlIssueBase issue config) ''resolution'' = Some (case resolution (issue_fields issue) of
       Some r \<Rightarrow> JObj [(''@_id'', JStr (resolution_id r)), (''#text'', JStr (resolution_name r))]
     | None \<Rightarrow> JUndefined)"
  by (simp add: xmlIssueBase_def Let_def)

lemma xml_base_assignee:
  "map_of (xmlIssueBase issue config) ''assignee'' = Some (userXml (assignee (issue_fields issue)))"
  by (simp add: xmlIssueBase_def Let_def)

lemma xml_base_reporter:
  "map_of (xmlIssueBase issue config) ''reporter'' = Some (userXml (reporter (issue_fields issue)))"
  by (simp add: xmlIssueBase_def Let_def)

lemma xml_base_parent:
  "parent (issue_fields issue) = Some p \<Longrightarrow>
   map_of (xmlIssueBase issue config) ''parent'' =
     Some (JObj [(''@_id'', JStr (ref_id p)), (''@_key'', JStr (ref_key p)), (''#text'', JStr (ref_summary p))])"
  by (simp add: xmlIssueBase_def Let_def map_add_def split: option.splits)

lemma json_relations:
  "getProp (processIssueForJson issue config) ''priority'' = (case priority (issue_fields issue) of
       Some p \<Rightarrow> JObj [(''id'', JStr (priority_id p)), (''name'', JStr (priority_name p))]
     | None \<Rightarrow> JNull)"
  "getProp (processIssueForJson issue config) ''assignee'' = (case assignee (issue_fields issue) of
       Some u \<Rightarrow> JObj [(''displayName'', JStr (user_displayName u)), (''emailAddress'', optStr (user_emailAddress u))]
     | None \<Rightarrow> JNull)"
  "getProp (processIssueForJson issue config) ''reporter'' = (case reporter (issue_fields issue) of
       Some u \<Rightarrow> JObj [(''displayName'', JStr (user_displayName u)), (''emailAddress'', optStr (user_emailAddress u))]
     | None \<Rightarrow> JNull)"
  by (simp_all add: processIssueForJson_def Let_def)

lemma json_parent:
  "parent (issue_fields issue) = Some p \<Longrightarrow>
   getProp (processIssueForJson issue config) ''parent'' =
     JObj [(''id'', JStr (ref_id p)), (''key'', JStr (ref_key p)), (''summary'', JStr (ref_summary p))]"
  by (simp add: processIssueForJson_def Let_def map_add_def split: option.splits)

lemma csv_relations:
  "getProp (processIssueForCsv issue config) ''Priority'' =
     jsOr (case priority (issue_fields issue) of None \<Rightarrow> JUndefined | Some p \<Rightarrow> JStr (priority_name p)) (JStr [])"
  "getProp (processIssueForCsv issue config) ''Assignee'' =
     jsOr (case assignee (issue_fields issue) of None \<Rightarrow> JUndefined | Some u \<Rightarrow> JStr (user_displayName u)) (JStr [])"
  "getProp (processIssueForCsv issue config) ''Reporter'' =
     jsOr (case reporter (issue_fields issue) of None \<Rightarrow> JUndefined | Some u \<Rightarrow> JStr (user_displayName u)) (JStr [])"
  by (simp_all add: processIssueForCsv_def Let_def)

lemma csv_parent:
  "parent (issue_fields issue) = Some p \<Longrightarrow>
   getProp (processIssueForCsv issue config) ''Parent Key'' = JStr (ref_key p)
   \<and> getProp (processIssueForCsv issue config) ''Parent Summary'' = JStr (ref_summary p)"
  by (simp add: processIssueForCsv_def Let_def map_add_def split: option.splits)

lemma json_no_resolution: "''resolution'' \<notin> set (objKeys (processIssueForJson issue config))"
  by (simp add: json_keys jsonCoreKeys_def)

lemma csv_no_resolution: "''Resolution'' \<notin> set (objKeys (processIssueForCsv issue config))"
  by (simp add: csv_keys csvCoreKeys_def)

lemma bare_xml:
  "convertIssueToXml sampleEnv bareIssue (flagsOff ''xml'' []) = Inr (JObj (xmlIssueBase bareIssue (flagsOff ''xml'' [])))"
  by (simp add: convertIssueToXml_def flagsOff_def)

lemma map_of_objSet: "map_of (objSet kvs k v) = (map_of kvs)(k \<mapsto> v)"
  by (induction kvs) (auto simp: fun_eq_iff)

lemma collect_keeps:
  assumes "collectCustomFields e f ks acc = Inr r"
    and "normalizeCustomField e (fieldAt f k) = Inr n" and "map_of acc k = Some n"
  shows "map_of r k = Some n"
  using assms
proof (induction ks arbitrary: acc)
  case Nil
  then show ?case by simp
next
  case (Cons k' ks)
  show ?case
  proof (cases "startsWith k' ''customfield_'' \<and> fieldAt f k' \<noteq> JUndefined \<and> fieldAt f k' \<noteq> JNull")
    case False
    with Cons.prems have "collectCustomFields e f ks acc = Inr r"
      by (auto split: if_splits)
    from Cons.IH [OF this Cons.prems(2,3)] show ?thesis .
  next
    case True
    with Cons.prems(1) obtain n' where n': "normalizeCustomField e (fieldAt f k') = Inr n'"
      and rest: "collectCustomFields e f ks (objSet acc k' n') = Inr r"
      by (auto split: sum.splits)
    have "map_of (objSet acc k' n') k = Some n"
      using n' Cons.prems(2,3) by (cases "k' = k") (simp_all add: map_of_objSet)
    from Cons.IH [OF rest Cons.prems(2) this] show ?thesis .
  qed
qed

lemma collect_finds:
  assumes "collectCustomFields e f ks acc = Inr r"
    and "k \<in> set ks" "startsWith k ''customfield_''"
    and "fieldAt f k \<noteq> JUndefined" "fieldAt f k \<noteq> JNull"
  shows "\<exists>n. normalizeCustomField e (fieldAt f k) = Inr n \<and> map_of r k = Some n"
  using assms(1,2)
proof (induction ks arbitrary: acc)
  case Nil
  then show ?case by simp
next
  case (Cons k' ks)
  show ?case
  proof (cases "k' = k")
    case True
    with Cons.prems(1) assms(3,4,5) obtain n where n: "normalizeCustomField e (fieldAt f k) = Inr n"
      and rest: "collectCustomFields e f ks (objSet acc k n) = Inr r"
      by (auto split: sum.splits)
    have "map_of (objSet acc k n) k = Some n"
      by (simp add: map_of_objSet)
    from collect_keeps [OF rest n this] n show ?thesis by blast
  next
    case False
    with Cons.prems(2) have mem: "k \<in> set ks" by simp
    from Cons.prems(1) obtain acc' where "collectCustomFields e f ks acc' = Inr r"
      by (auto split: if_splits sum.splits)
    from Cons.IH [OF this mem] show ?thesis .
  qed
qed

lemma xml_base_no_customfields: "map_of (xmlIssueBase issue config) ''customfields'' = None"
proof -
  have "''customfields'' \<notin> set (map fst (xmlIssueBase issue config))"
    unfolding xml_base_keys by (simp add: xmlCoreKeys_def)
  then show ?thesis
    by (simp add: map_of_eq_None_iff)
qed

lemma xml_custom_field:
  assumes "convertIssueToXml e issue config = Inr x"
    and "k \<in> set (includeFields config)" "startsWith k ''customfield_''"
    and "fieldAt (issue_fields issue) k \<noteq> JUndefined" "fieldAt (issue_fields issue) k \<noteq> JNull"
  shows "normalizeCustomField e (fieldAt (issue_fields issue) k) = Inr (getProp (getProp x ''customfields'') k)"
proof -
  from assms(2) have ne: "includeFields config \<noteq> []" by auto
  with convert_Inr [OF assms(1)] obtain r where
    r: "collectCustomFields e (issue_fields issue) (includeFields config) [] = Inr r"
    and x: "x = JObj (xmlIssueBase issue config @ (if r \<noteq> [] then [(''customfields'', JObj r)] else []))"
    by blast
  from collect_finds [OF r assms(2,3,4,5)] obtain n where
    n: "normalizeCustomField e (fieldAt (issue_fields issue) k) = Inr n" "map_of r k = Some n"
    by blast
  then have "r \<noteq> []" by auto
  with x have "getProp x ''customfields'' = JObj r"
    by (simp add: map_add_def xml_base_no_customfields)
  with n show ?thesis by simp
qed

lemma normalize_scalar: "\<not> typeofObject v \<Longrightarrow> normalizeCustomField e v = Inr v"
  by (cases v) (simp_all add: normalizeCustomField_def)

lemma mapE_value_objects:
  "(\<And>i. i \<in> set items \<Longrightarrow> typeofObject i \<and> truthy (getProp i ''value'')) \<Longrightarrow>
   mapE (normalizeItem e) items = Inr (map (\<lambda>i. getProp i ''value'') items)"
proof (induction items)
  case Nil
  then show ?case by simp
next
  case (Cons i items)
  then have "typeofObject i \<and> truthy (getProp i ''value'')" by simp
  moreover then have "i \<noteq> JNull" by auto
  ultimately have "normalizeItem e i = Inr (getProp i ''value'')"
    by (simp add: normalizeItem_def)
  with Cons show ?case by simp
qed

lemma json_no_custom:
  "startsWith k ''customfield_'' \<Longrightarrow> k \<notin> set (objKeys (processIssueForJson issue config))"
  unfolding json_keys by (auto simp: jsonCoreKeys_def startsWith_def split: if_splits)

lemma csv_no_custom:
  "startsWith k ''customfield_'' \<Longrightarrow> k \<notin> set (objKeys (processIssueForCsv issue config))"
  unfolding csv_keys by (auto simp: csvCoreKeys_def startsWith_def split: if_splits)

lemma collect_none:
  "(\<And>k. k \<in> set ks \<Longrightarrow> \<not> (startsWith k ''customfield_'' \<and> fieldAt f k \<noteq> JUndefined \<and> fieldAt f k \<noteq> JNull))
   \<Longrightarrow> collectCustomFields e f ks acc = Inr acc"
  by (induction ks arbitrary: acc) auto

lemma collect_nonempty_iff:
  assumes "collectCustomFields e (issue_fields issue) (includeFields config) [] = Inr r"
  shows "r \<noteq> [] \<longleftrightarrow> customFieldSelected issue config"
proof
  assume "customFieldSelected issue config"
  then obtain k where "k \<in> set (includeFields config)" "startsWith k ''customfield_''"
    "fieldAt (issue_fields issue) k \<noteq> JUndefined" "fieldAt (issue_fields issue) k \<noteq> JNull"
    unfolding customFieldSelected_def by blast
  from collect_finds [OF assms this] show "r \<noteq> []" by auto
next
  assume ne: "r \<noteq> []"
  show "customFieldSelected issue config"
  proof (rule ccontr)
    assume "\<not> customFieldSelected issue config"
    then have "collectCustomFields e (issue_fields issue) (includeFields config) [] = Inr []"
      unfolding customFieldSelected_def by (intro collect_none) blast
    with assms ne show False by simp
  qed
qed

lemma xml_keys:
  assumes "convertIssueToXml e issue config = Inr x"
  shows "objKeys x = map fst (xmlIssueBase issue config)
           @ (if customFieldSelected issue config then [''customfields''] else [])"
proof (cases "includeFields config = []")
  case True
  then have "\<not> customFieldSelected issue config"
    by (simp add: customFieldSelected_def)
  with True convert_Inr [OF assms] show ?thesis by auto
next
  case False
  with convert_Inr [OF assms] obtain r where
    r: "collectCustomFields e (issue_fields issue) (includeFields config) [] = Inr r"
    and x: "x = JObj (xmlIssueBase issue config @ (if r \<noteq> [] then [(''customfields'', JObj r)] else []))"
    by blast
  from collect_nonempty_iff [OF r] x show ?thesis by auto
qed

lemma child_xml:
  "convertIssueToXml sampleEnv childIssue (flagsOff ''xml'' [''customfield_10001'']) =
     Inr (JObj (xmlIssueBase childIssue (flagsOff ''xml'' [''customfield_10001''])
                @ [(''customfields'', JObj [(''customfield_10001'', JArr [JStr ''x''])])]))"
  by (simp add: convertIssueToXml_def flagsOff_def childIssue_def fieldAt_def startsWith_def
      normalizeCustomField_def normalizeItem_def)

lemma child_parent: "parent (issue_fields childIssue) = Some sampleParent"
  by (simp add: childIssue_def)

lemma child_base_keys:
  "map fst (xmlIssueBase childIssue (flagsOff ''xml'' [''customfield_10001''])) = xmlCoreKeys @ [''parent'']"
  by (simp add: xml_base_keys child_parent flagsOff_def)

lemma child_selected: "customFieldSelected childIssue (flagsOff ''xml'' [''customfield_10001''])"
  by (simp add: customFieldSelected_def flagsOff_def childIssue_def fieldAt_def startsWith_def)

lemma csv_core_prefix: "take 19 (objKeys (processIssueForCsv issue config)) = csvCoreKeys"
  unfolding csv_keys by (simp add: csvCoreKeys_def)

lemma inLoop_loopEvents: "filter inLoop (loopEvents e n 0 m) = loopEvents e n 0 m"
proof -
  have "\<And>p. p \<in> set (loopEvents e n 0 m) \<Longrightarrow> inLoop p"
    by (auto simp: loopEvents_def inLoop_def processingEvent_simps simp del: upt_Suc)
  then show ?thesis
    by (simp add: filter_id_conv)
qed

lemma inLoop_emit:
  "filter inLoop (emit cb p evs) = filter inLoop evs @ (if cb \<and> inLoop p then [p] else [])"
  by (simp add: emit_def)

lemma exportJson_inLoop:
  "filter inLoop (fst (exportJson e issues config True evs0)) =
     filter inLoop evs0 @ loopEvents e (length issues) 0 (length issues)"
  unfolding exportJson_def
  by (simp add: processIssues_total [of _ "\<lambda>i. processIssueForJson i config"] Let_def inLoop_emit
      loopTrace_def inLoop_loopEvents split: sum.splits)
     (simp add: inLoop_def)

lemma exportCsv_inLoop:
  "filter inLoop (fst (exportCsv e issues config True evs0)) =
     filter inLoop evs0 @ loopEvents e (length issues) 0 (length issues)"
  unfolding exportCsv_def
  by (simp add: processIssues_total [of _ "\<lambda>i. processIssueForCsv i config"] Let_def inLoop_emit
      loopTrace_def inLoop_loopEvents split: sum.splits)
     (simp add: inLoop_def)

lemma exportToXml_inLoop:
  "filter inLoop (fst (exportToXml e issues config True evs0)) =
     filter inLoop evs0 @ loopEvents e (length issues) 0
       (projectedCount (\<lambda>issue. convertIssueToXml e issue config) issues)"
proof -
  let ?pr = "\<lambda>issue. convertIssueToXml e issue config"
  let ?evsP = "emit True \<lparr>current = 0, total = length issues, percentage = 0,
                 stage = Processing, message = ''Preparing XML export...'',
                 startTime = formatStart e, estimatedTimeRemaining = None\<rparr> evs0"
  let ?run = "processIssues e ?pr True (length issues) issues 0 [] ?evsP"
  have f: "fst ?run = ?evsP @ loopEvents e (length issues) 0 (projectedCount ?pr issues)"
    using processIssues_fst [of e ?pr True "length issues" issues "[]" ?evsP]
    by (simp add: loopTrace_def)
  have p: "filter inLoop ?evsP = filter inLoop evs0"
    by (simp add: inLoop_emit) (simp add: inLoop_def)
  obtain evs1 r where run: "?run = (evs1, r)"
    by (cases ?run) auto
  with f p have "filter inLoop evs1 = filter inLoop evs0 @ loopEvents e (length issues) 0 (projectedCount ?pr issues)"
    by (simp add: inLoop_loopEvents)
  with run show ?thesis
    unfolding exportToXml_def
    by (simp add: Let_def inLoop_emit split: sum.splits) (simp add: inLoop_def)
qed

lemma exportXml_inLoop:
  "filter inLoop (fst (exportXml e issues config True evs0)) =
     filter inLoop evs0 @ loopEvents e (length issues) 0
       (projectedCount (\<lambda>issue. convertIssueToXml e issue config) issues)"
  using exportToXml_inLoop [of e issues config evs0]
  unfolding exportXml_def
  by (cases "exportToXml e issues config True evs0") (auto split: sum.splits)

lemma export_inLoop:
  "filter inLoop (fst (export e issues config True)) =
     loopEvents e (length issues) 0 (issuesProcessed e issues config)"
proof -
  let ?evs0 = "emit True (startEvent e (length issues) (format config)) []"
  let ?d = "(if format config = ''xml'' then exportXml e issues config True ?evs0
            else if format config = ''json'' then exportJson e issues config True ?evs0
            else if format config = ''csv'' then exportCsv e issues config True ?evs0
            else (?evs0, [], Inl (Error (''Unsupported export format: '' @ format config))))"
  have s: "filter inLoop ?evs0 = []"
    by (simp add: emit_def inLoop_def startEvent_def)
  have d: "filter inLoop (fst ?d) = loopEvents e (length issues) 0 (issuesProcessed e issues config)"
  proof (cases "format config = ''xml''")
    case True
    then show ?thesis
      using s exportXml_inLoop [of e issues config ?evs0] by (simp only: issuesProcessed_def if_True) simp
  next
    case nx: False
    show ?thesis
    proof (cases "format config = ''json''")
      case True
      with nx show ?thesis
        using s exportJson_inLoop [of e issues config ?evs0]
        by (simp only: issuesProcessed_def if_True if_False simp_thms) simp
    next
      case nj: False
      show ?thesis
      proof (cases "format config = ''csv''")
        case True
        with nx nj show ?thesis
          using s exportCsv_inLoop [of e issues config ?evs0]
          by (simp only: issuesProcessed_def if_True if_False simp_thms) simp
      next
        case False
        with nx nj s show ?thesis
          by (simp only: issuesProcessed_def if_True if_False simp_thms fst_conv loopEvents_same)
      qed
    qed
  qed
  obtain evs1 saved r where dd: "?d = (evs1, saved, r)"
    by (cases ?d) auto
  with d have "filter inLoop evs1 = loopEvents e (length issues) 0 (issuesProcessed e issues config)"
    by simp
  moreover have "fst (export e issues config True) =
      (case r of Inl x \<Rightarrow> emit True (errorEvent e (length issues) x) evs1 | Inr u \<Rightarrow> evs1)"
    using dd unfolding export_def Let_def by (simp split: sum.splits)
  ultimately show ?thesis
    by (cases r) (simp_all add: inLoop_emit, simp add: inLoop_def errorEvent_def)
qed

lemma export_failure:
  assumes "export e issues config onProgress = (evs, saved, Inl x)"
  shows "filter (\<lambda>p. stage p = Failed) evs = (if onProgress then [errorEvent e (length issues) x] else [])
         \<and> message (errorEvent e (length issues) x) = errorMessage x
         \<and> saved = []"
proof -
  let ?evs0 = "emit onProgress (startEvent e (length issues) (format config)) []"
  let ?d = "(if format config = ''xml'' then exportXml e issues config onProgress ?evs0
            else if format config = ''json'' then exportJson e issues config onProgress ?evs0
            else if format config = ''csv'' then exportCsv e issues config onProgress ?evs0
            else (?evs0, [], Inl (Error (''Unsupported export format: '' @ format config))))"
  obtain evs1 saved1 r where d: "?d = (evs1, saved1, r)"
    by (cases ?d) auto
  from dispatch_failure [OF d] have inv: "failedEvents evs1 = failedEvents ?evs0" "isl r \<longrightarrow> saved1 = []"
    by simp_all
  have start: "failedEvents ?evs0 = []"
    by (simp add: failedEvents_emit failedEvents_Nil startEvent_def)
  from assms d have r: "r = Inl x" and evs: "evs = emit onProgress (errorEvent e (length issues) x) evs1"
    and saved: "saved = saved1"
    unfolding export_def Let_def by (auto split: sum.splits)
  from inv r saved have "saved = []" by simp
  moreover have "failedEvents evs = (if onProgress then [errorEvent e (length issues) x] else [])"
    using inv start evs by (simp add: failedEvents_emit errorEvent_def)
  ultimately show ?thesis
    by (simp add: failedEvents_def errorEvent_def)
qed

lemma processIssues_mapE:
  "snd (processIssues e pr cb n issues pc items evs) =
     (case mapE pr issues of Inl x \<Rightarrow> Inl x | Inr ys \<Rightarrow> Inr (pc + length issues, items @ ys))"
  by (induction issues arbitrary: pc items evs) (auto split: sum.splits)

lemma exportJson_result:
  "snd (snd (exportJson e issues config cb evs0)) =
     (case jsonStringifyIndent e
             (exportData e (length issues) (map (\<lambda>issue. processIssueForJson issue config) issues)) of
        Inl x \<Rightarrow> Inl x | Inr t \<Rightarrow> Inr ())"
  unfolding exportJson_def
  by (simp add: processIssues_total [of _ "\<lambda>i. processIssueForJson i config"] Let_def split: sum.splits)

lemma exportCsv_result:
  "snd (snd (exportCsv e issues config cb evs0)) =
     (case papaUnparse e (map (\<lambda>issue. processIssueForCsv issue config) issues) of
        Inl x \<Rightarrow> Inl x | Inr t \<Rightarrow> Inr ())"
  unfolding exportCsv_def
  by (simp add: processIssues_total [of _ "\<lambda>i. processIssueForCsv i config"] Let_def split: sum.splits)

lemma exportXml_result:
  "snd (snd (exportXml e issues config cb evs0)) =
     (case mapE (\<lambda>issue. convertIssueToXml e issue config) issues of
        Inl x \<Rightarrow> Inl x
      | Inr item \<Rightarrow>
          (case xmlBuild e (xmlData e (length issues) item) of Inl x \<Rightarrow> Inl x | Inr t \<Rightarrow> Inr ()))"
proof -
  let ?pr = "\<lambda>issue. convertIssueToXml e issue config"
  let ?evsP = "emit cb \<lparr>current = 0, total = length issues, percentage = 0,
                 stage = Processing, message = ''Preparing XML export...'',
                 startTime = formatStart e, estimatedTimeRemaining = None\<rparr> evs0"
  let ?run = "processIssues e ?pr cb (length issues) issues 0 [] ?evsP"
  have "snd ?run = (case mapE ?pr issues of Inl x \<Rightarrow> Inl x | Inr ys \<Rightarrow> Inr (length issues, ys))"
    using processIssues_mapE [of e ?pr cb "length issues" issues 0 "[]" ?evsP]
    by (cases "mapE ?pr issues") simp_all
  then show ?thesis
    unfolding exportXml_def exportToXml_def
    by (cases ?run) (auto simp: Let_def split: sum.splits)
qed

lemma export_rethrows:
  assumes "firstFailure e issues config = Some x"
  shows "snd (snd (export e issues config cb)) = Inl x"
proof -
  let ?evs0 = "emit cb (startEvent e (length issues) (format config)) []"
  let ?d = "(if format config = ''xml'' then exportXml e issues config cb ?evs0
            else if format config = ''json'' then exportJson e issues config cb ?evs0
            else if format config = ''csv'' then exportCsv e issues config cb ?evs0
            else (?evs0, [], Inl (Error (''Unsupported export format: '' @ format config))))"
  have d: "snd (snd ?d) = Inl x"
  proof (cases "format config = ''xml''")
    case True
    show ?thesis
    proof (cases "mapE (\<lambda>issue. convertIssueToXml e issue config) issues")
      case (Inl y)
      with assms True show ?thesis
        using exportXml_result [of e issues config cb ?evs0]
        by (simp add: firstFailure_def)
    next
      case (Inr item)
      with assms True show ?thesis
        using exportXml_result [of e issues config cb ?evs0]
        by (cases "xmlBuild e (xmlData e (length issues) item)") (simp_all add: firstFailure_def)
    qed
  next
    case nx: False
    show ?thesis
    proof (cases "format config = ''json''")
      case True
      with assms nx show ?thesis
        using exportJson_result [of e issues config cb ?evs0]
        by (cases "jsonStringifyIndent e
                (exportData e (length issues) (map (\<lambda>issue. processIssueForJson issue config) issues))")
           (simp_all add: firstFailure_def)
    next
      case nj: False
      show ?thesis
      proof (cases "format config = ''csv''")
        case True
        with assms nx nj show ?thesis
          using exportCsv_result [of e issues config cb ?evs0]
          by (cases "papaUnparse e (map (\<lambda>issue. processIssueForCsv issue config) issues)")
             (simp_all add: firstFailure_def)
      next
        case False
        with assms nx nj show ?thesis
          by (simp add: firstFailure_def)
      qed
    qed
  qed
  obtain evs1 saved r where dd: "?d = (evs1, saved, r)"
    by (cases ?d) auto
  with d have "r = Inl x" by simp
  with dd show ?thesis
    unfolding export_def Let_def by simp
qed

section \<open>Claims\<close>

text \<open>
  C2. When a projection or the serialiser of the chosen format throws (\<open>firstFailure\<close>
  names the exception), the call throws that same exception, nothing was handed to
  \<open>saveAs\<close>, and the progress callback, when there is one, received exactly one event
  of stage \<open>error\<close>; that event carries the failure's message (\<open>error.message\<close>,
  or \<open>'Export failed'\<close> for a thrown value that is no \<open>Error\<close>).
\<close>

theorem failure_reported_once:
  assumes "firstFailure e issues config = Some x"
  shows "snd (export e issues config onProgress) = ([], Inl x)
         \<and> filter (\<lambda>p. stage p = Failed) (fst (export e issues config onProgress))
             = (if onProgress then [errorEvent e (length issues) x] else [])
         \<and> message (errorEvent e (length issues) x) = errorMessage x"
proof -
  obtain evs saved r where run: "export e issues config onProgress = (evs, saved, r)"
    by (cases "export e issues config onProgress") auto
  with export_rethrows [OF assms, of onProgress] have "r = Inl x" by simp
  with run have "export e issues config onProgress = (evs, saved, Inl x)" by simp
  from export_failure [OF this] run \<open>r = Inl x\<close> show ?thesis
    by simp
qed

theorem failure_reported_once_witness:
  "firstFailure failingEnv [bareIssue] (flagsOff ''json'' []) = Some (Error ''Invalid string length'')
   \<and> export failingEnv [bareIssue] (flagsOff ''json'' []) True =
     ([startEvent failingEnv 1 ''json'',
       mkEvent failingEnv 1 1 100 Exporting ''Generating JSON...'',
       errorEvent failingEnv 1 (Error ''Invalid string length'')],
      [], Inl (Error ''Invalid string length''))
   \<and> message (errorEvent failingEnv 1 (Error ''Invalid string length'')) = ''Invalid string length''"
proof -
  have f: "firstFailure failingEnv [bareIssue] (flagsOff ''json'' []) = Some (Error ''Invalid string length'')"
    by (simp add: firstFailure_def flagsOff_def failingEnv_def sampleEnv_def)
  have run: "export failingEnv [bareIssue] (flagsOff ''json'' []) True =
     ([startEvent failingEnv 1 ''json'',
       mkEvent failingEnv 1 1 100 Exporting ''Generating JSON...'',
       errorEvent failingEnv 1 (Error ''Invalid string length'')],
      [], Inl (Error ''Invalid string length''))"
    by (simp add: export_def exportJson_def emit_def flagsOff_def failingEnv_def sampleEnv_def
        mkEvent_def Let_def)
  from failure_reported_once [OF f, of True] f run show ?thesis
    by simp
qed

text \<open>
  C9. When a run with a progress callback throws, events were emitted before the failure
  (at least the starting one), and the last event is the error event, whose
  \<open>current\<close> and \<open>percentage\<close> are 0 whatever counts the run had reached.
\<close>

theorem error_event_resets_counts:
  assumes "export e issues config True = (evs, saved, Inl x)"
  shows "butlast evs \<noteq> []
         \<and> last evs = errorEvent e (length issues) x
         \<and> stage (last evs) = Failed
         \<and> current (last evs) = 0
         \<and> percentage (last evs) = 0"
proof -
  let ?evs0 = "emit True (startEvent e (length issues) (format config)) []"
  let ?d = "(if format config = ''xml'' then exportXml e issues config True ?evs0
            else if format config = ''json'' then exportJson e issues config True ?evs0
            else if format config = ''csv'' then exportCsv e issues config True ?evs0
            else (?evs0, [], Inl (Error (''Unsupported export format: '' @ format config))))"
  obtain evs1 saved1 r where d: "?d = (evs1, saved1, r)"
    by (cases ?d) auto
  have "length ?evs0 \<le> length evs1"
    using d exportXml_grows [of e issues config True ?evs0 evs1 saved1 r]
      exportJson_grows [of e issues config True ?evs0 evs1 saved1 r]
      exportCsv_grows [of e issues config True ?evs0 evs1 saved1 r]
    by (auto split: if_splits)
  then have nonempty: "evs1 \<noteq> []"
    by (auto simp: emit_def)
  from assms d have "evs = evs1 @ [errorEvent e (length issues) x]"
    unfolding export_def Let_def by (auto simp: emit_def split: sum.splits)
  with nonempty show ?thesis
    by (simp add: errorEvent_def)
qed

theorem error_event_resets_counts_witness:
  "export failingEnv (replicate 10 bareIssue) (flagsOff ''json'' []) True =
     ([startEvent failingEnv 10 ''json'',
       processingEvent failingEnv 10 10,
       mkEvent failingEnv 10 10 100 Exporting ''Generating JSON...'',
       errorEvent failingEnv 10 (Error ''Invalid string length'')],
      [], Inl (Error ''Invalid string length''))
   \<and> current (processingEvent failingEnv 10 10) = 10
   \<and> percentage (processingEvent failingEnv 10 10) = 100
   \<and> current (errorEvent failingEnv 10 (Error ''Invalid string length'')) = 0
   \<and> percentage (errorEvent failingEnv 10 (Error ''Invalid string length'')) = 0"
proof -
  note run = failing_ten_run
  from error_event_resets_counts [OF run] show ?thesis
    using run pct_ten by (simp add: processingEvent_simps)
qed

text \<open>
  C1, as amended. With a format other than \<open>xml\<close>, \<open>json\<close> and \<open>csv\<close> the call
  throws \<open>Error('Unsupported export format: <format>')\<close>, no exporter runs and nothing
  is saved. The starting event is emitted before the switch on the format: with a
  progress callback the run emits that event and then the error event, two events in all;
  without a callback it emits none.
\<close>

theorem unsupported_format_fails:
  assumes "format config \<noteq> ''xml''" "format config \<noteq> ''json''" "format config \<noteq> ''csv''"
  shows "export e issues config onProgress =
     ((if onProgress
       then [startEvent e (length issues) (format config),
             errorEvent e (length issues) (Error (''Unsupported export format: '' @ format config))]
       else []),
      [], Inl (Error (''Unsupported export format: '' @ format config)))"
  using assms by (simp add: export_def emit_def)

theorem unsupported_format_witness:
  "export sampleEnv [bareIssue] (flagsOff ''bogus'' []) True =
     ([startEvent sampleEnv 1 ''bogus'',
       errorEvent sampleEnv 1 (Error ''Unsupported export format: bogus'')],
      [], Inl (Error ''Unsupported export format: bogus''))"
  using unsupported_format_fails [of "flagsOff ''bogus'' []" sampleEnv "[bareIssue]" True]
  by (simp add: flagsOff_def)

text \<open>
  C1 as stated fails: with the format \<open>bogus\<close> and a progress callback, the event
  \<open>Starting BOGUS export...\<close> is emitted before the failure.
\<close>

theorem unsupported_format_counterexample:
  "fst (export sampleEnv [bareIssue] (flagsOff ''bogus'' []) True) =
     [\<lparr>current = 0, total = 1, percentage = 0, stage = Processing,
       message = ''Starting BOGUS export...'', startTime = 1704190000000,
       estimatedTimeRemaining = None\<rparr>,
      \<lparr>current = 0, total = 1, percentage = 0, stage = Failed,
       message = ''Unsupported export format: bogus'', startTime = 1704190000000,
       estimatedTimeRemaining = None\<rparr>]"
proof -
  have up: "toUpperCase ''bogus'' = ''BOGUS''"
    by code_simp
  show ?thesis
    by (simp add: export_def emit_def flagsOff_def startEvent_def errorEvent_def sampleEnv_def up)
qed

text \<open>
  C5. The loop of each exporter (\<open>exportJson\<close>, \<open>exportCsv\<close> and \<open>exportToXml\<close>
  all run \<open>processIssues\<close>, with their own projection) adds to the events exactly one
  \<open>processing\<close> event for every count of processed issues that is a multiple of 10,
  in order, and nothing else; without a progress callback it adds nothing. Seen from
  \<open>export\<close>, whatever the format: the \<open>processing\<close> events with a positive
  count are exactly those, up to the number of issues the run projects. The event for
  the count \<open>k\<close> has \<open>current = k\<close> and its \<open>estimatedTimeRemaining\<close> is
  \<open>elapsed / k * n - elapsed\<close>, in milliseconds, divided by 1000 and rounded to the
  nearest integer (\<open>round\<close>, a half going up), where \<open>elapsed\<close> is the clock reading
  at that count minus the exporter's start time and each operation is the one of number
  arithmetic, on doubles; the percentage is \<open>k / n * 100\<close> rounded in the same way.
  So 7600 ms for 10 issues out of 20 leave 7.6 s, reported as 8; 8125 ms for 30 out of 54
  leave 6499.999999999998 ms in doubles, reported as 6; and 230 out of 400 is
  57.49999999999999 in doubles, reported as 57.
\<close>

theorem processing_event_cadence:
  "fst (processIssues e projection True n issues 0 [] evs) =
     evs @ map (processingEvent e n)
             (filter (\<lambda>k. k mod 10 = 0) [1 ..< Suc (projectedCount projection issues)])
   \<and> fst (processIssues e projection False n issues 0 [] evs) = evs
   \<and> filter (\<lambda>p. stage p = Processing \<and> 0 < current p) (fst (export e issues config True)) =
       map (processingEvent e (length issues))
         (filter (\<lambda>k. k mod 10 = 0) [1 ..< Suc (issuesProcessed e issues config)])
   \<and> stage (processingEvent e n k) = Processing
   \<and> current (processingEvent e n k) = k
   \<and> estimatedTimeRemaining (processingEvent e n k) =
       Some (round (toDouble (toDouble (toDouble (toDouble
                      (of_int (loopNow e k - formatStart e) / of_nat k) * of_nat n)
                        - of_int (loopNow e k - formatStart e)) / 1000)))
   \<and> percentage (processingEvent e n k) = round (toDouble (toDouble (of_nat k / of_nat n) * 100))
   \<and> estimatedTimeRemaining
         (processingEvent (e\<lparr>formatStart := 0, loopNow := \<lambda>c. 7600\<rparr>) 20 10) = Some 8
   \<and> estimatedTimeRemaining
         (processingEvent (e\<lparr>formatStart := 0, loopNow := \<lambda>c. 8125\<rparr>) 54 30) = Some 6
   \<and> percentage (processingEvent e 400 230) = 57"
proof -
  have run: "fst (processIssues e projection True n issues 0 [] evs) =
     evs @ map (processingEvent e n)
             (filter (\<lambda>k. k mod 10 = 0) [1 ..< Suc (projectedCount projection issues)])"
    using processIssues_events [of e projection n issues 0 "[]" evs]
    by (simp add: loopEvents_def del: upt_Suc)
  have silent: "fst (processIssues e projection False n issues 0 [] evs) = evs"
    by (rule processIssues_silent)
  have seen: "filter (\<lambda>p. stage p = Processing \<and> 0 < current p) (fst (export e issues config True)) =
       map (processingEvent e (length issues))
         (filter (\<lambda>k. k mod 10 = 0) [1 ..< Suc (issuesProcessed e issues config)])"
    using export_inLoop [of e issues config]
    unfolding inLoop_def [abs_def] loopEvents_def by simp
  have shape: "stage (processingEvent e n k) = Processing \<and> current (processingEvent e n k) = k"
    by (simp add: processingEvent_simps)
  have eta: "estimatedTimeRemaining (processingEvent e n k) =
       Some (round (toDouble (toDouble (toDouble (toDouble
                      (of_int (loopNow e k - formatStart e) / of_nat k) * of_nat n)
                        - of_int (loopNow e k - formatStart e)) / 1000)))"
    by (simp add: processingEvent_def Let_def mathRound_round)
  have perc: "percentage (processingEvent e n k) = round (toDouble (toDouble (of_nat k / of_nat n) * 100))"
    by (simp add: processingEvent_def Let_def mathRound_round)
  have "mathRound (toDouble (toDouble (toDouble (toDouble
            (of_int (7600 - 0) / of_nat 10) * of_nat 20) - of_int (7600 - 0)) / 1000)) = 8"
    by code_simp
  then have up: "estimatedTimeRemaining
         (processingEvent (e\<lparr>formatStart := 0, loopNow := \<lambda>c. 7600\<rparr>) 20 10) = Some 8"
    by (simp add: processingEvent_def Let_def)
  have "mathRound (toDouble (toDouble (toDouble (toDouble
            (of_int (8125 - 0) / of_nat 30) * of_nat 54) - of_int (8125 - 0)) / 1000)) = 6"
    by code_simp
  then have down: "estimatedTimeRemaining
         (processingEvent (e\<lparr>formatStart := 0, loopNow := \<lambda>c. 8125\<rparr>) 54 30) = Some 6"
    by (simp add: processingEvent_def Let_def)
  have "pct 400 230 = 57"
    by code_simp
  then have p57: "percentage (processingEvent e 400 230) = 57"
    by (simp add: processingEvent_simps)
  from run silent seen shape eta perc up down p57 show ?thesis
    by (intro conjI) simp_all
qed

text \<open>
  C4, as amended. In a run with a progress callback that returns normally, \<open>current\<close>
  never decreases and never exceeds \<open>total\<close>, \<open>percentage\<close> never decreases, and
  the last event has \<open>percentage = 100\<close> and stage \<open>complete\<close>, also when
  there is no issue at all.
\<close>

theorem successful_run_progress:
  assumes "export e issues config True = (evs, saved, Inr u)"
  shows "sorted (map current evs)
         \<and> list_all (\<lambda>p. current p \<le> total p) evs
         \<and> sorted (map percentage evs)
         \<and> evs \<noteq> []
         \<and> percentage (last evs) = 100
         \<and> stage (last evs) = Complete"
proof -
  from export_Inr_trace [OF assms] obtain pre m1 m2 where
    pre: "\<And>p. p \<in> set pre \<Longrightarrow> current p = 0 \<and> percentage p = 0 \<and> total p = length issues"
    and evs: "evs = pre @ loopEvents e (length issues) 0 (length issues)
                     @ [mkEvent e (length issues) (length issues) 100 Exporting m1,
                        mkEvent e (length issues) (length issues) 100 Complete m2]"
    by blast
  from pre evs show ?thesis
    by (rule trace_shape)
qed

theorem successful_run_progress_witness:
  "export sampleEnv [] (flagsOff ''csv'' []) True =
     ([startEvent sampleEnv 0 ''csv'',
       mkEvent sampleEnv 0 0 0 Processing ''Preparing CSV export...'',
       mkEvent sampleEnv 0 0 100 Exporting ''Generating CSV...'',
       mkEvent sampleEnv 0 0 100 Complete ''CSV export complete''],
      [\<lparr>art_content = [], art_filename = ''jira-export-2024-01-02.csv'',
        art_mimeType = ''text/csv;charset=utf-8''\<rparr>],
      Inr ())
   \<and> sorted (map percentage [startEvent sampleEnv 0 ''csv'',
       mkEvent sampleEnv 0 0 0 Processing ''Preparing CSV export...'',
       mkEvent sampleEnv 0 0 100 Exporting ''Generating CSV...'',
       mkEvent sampleEnv 0 0 100 Complete ''CSV export complete''])
   \<and> total (mkEvent sampleEnv 0 0 100 Complete ''CSV export complete'') = 0
   \<and> percentage (mkEvent sampleEnv 0 0 100 Complete ''CSV export complete'') = 100
   \<and> stage (mkEvent sampleEnv 0 0 100 Complete ''CSV export complete'') = Complete"
proof -
  note run = empty_csv_run
  from successful_run_progress [OF run] show ?thesis
    using run by (simp add: mkEvent_simps)
qed

text \<open>
  C4 as stated fails on a run that throws: with ten issues and a \<open>JSON.stringify\<close>
  that throws, the events have \<open>current\<close> 0, 10, 10, 0 and \<open>percentage\<close>
  0, 100, 100, 0, and the last event has stage \<open>error\<close>.
\<close>

theorem failing_run_progress_counterexample:
  "map current (fst (export failingEnv (replicate 10 bareIssue) (flagsOff ''json'' []) True)) = [0, 10, 10, 0]
   \<and> map percentage (fst (export failingEnv (replicate 10 bareIssue) (flagsOff ''json'' []) True)) = [0, 100, 100, 0]
   \<and> map stage (fst (export failingEnv (replicate 10 bareIssue) (flagsOff ''json'' []) True))
       = [Processing, Processing, Exporting, Failed]"
  by (simp add: failing_ten_run startEvent_def errorEvent_def mkEvent_simps processingEvent_simps pct_ten)

text \<open>
  C7, as amended. When \<open>priority\<close>, \<open>assignee\<close> or \<open>reporter\<close> is absent
  on the issue, the JSON record holds \<open>null\<close> for it and the XML record
  \<open>undefined\<close>, while the CSV row holds the empty string in the column
  (\<open>issue.fields.priority?.name || ''\<close>). An absent \<open>resolution\<close> is
  \<open>undefined\<close> in the XML record; the JSON record and the CSV row have no entry for
  the resolution at all.
\<close>

theorem absent_relations:
  "(priority (issue_fields issue) = None \<longrightarrow>
      getProp (processIssueForJson issue config) ''priority'' = JNull
      \<and> (\<forall>x. convertIssueToXml e issue config = Inr x \<longrightarrow> getProp x ''priority'' = JUndefined)
      \<and> getProp (processIssueForCsv issue config) ''Priority'' = JStr [])
   \<and> (assignee (issue_fields issue) = None \<longrightarrow>
      getProp (processIssueForJson issue config) ''assignee'' = JNull
      \<and> (\<forall>x. convertIssueToXml e issue config = Inr x \<longrightarrow> getProp x ''assignee'' = JUndefined)
      \<and> getProp (processIssueForCsv issue config) ''Assignee'' = JStr [])
   \<and> (reporter (issue_fields issue) = None \<longrightarrow>
      getProp (processIssueForJson issue config) ''reporter'' = JNull
      \<and> (\<forall>x. convertIssueToXml e issue config = Inr x \<longrightarrow> getProp x ''reporter'' = JUndefined)
      \<and> getProp (processIssueForCsv issue config) ''Reporter'' = JStr [])
   \<and> (resolution (issue_fields issue) = None \<longrightarrow>
      (\<forall>x. convertIssueToXml e issue config = Inr x \<longrightarrow> getProp x ''resolution'' = JUndefined))
   \<and> ''resolution'' \<notin> set (objKeys (processIssueForJson issue config))
   \<and> ''Resolution'' \<notin> set (objKeys (processIssueForCsv issue config))"
proof -
  have xml: "\<And>x k v. convertIssueToXml e issue config = Inr x \<Longrightarrow>
      map_of (xmlIssueBase issue config) k = Some v \<Longrightarrow> getProp x k = v"
    by (rule getProp_base)
  have p: "priority (issue_fields issue) = None \<longrightarrow>
      getProp (processIssueForJson issue config) ''priority'' = JNull
      \<and> (\<forall>x. convertIssueToXml e issue config = Inr x \<longrightarrow> getProp x ''priority'' = JUndefined)
      \<and> getProp (processIssueForCsv issue config) ''Priority'' = JStr []"
    using xml [OF _ xml_base_priority]
    by (simp add: json_relations csv_relations jsOr_def)
  have a: "assignee (issue_fields issue) = None \<longrightarrow>
      getProp (processIssueForJson issue config) ''assignee'' = JNull
      \<and> (\<forall>x. convertIssueToXml e issue config = Inr x \<longrightarrow> getProp x ''assignee'' = JUndefined)
      \<and> getProp (processIssueForCsv issue config) ''Assignee'' = JStr []"
    using xml [OF _ xml_base_assignee]
    by (simp add: json_relations csv_relations jsOr_def userXml_def)
  have r: "reporter (issue_fields issue) = None \<longrightarrow>
      getProp (processIssueForJson issue config) ''reporter'' = JNull
      \<and> (\<forall>x. convertIssueToXml e issue config = Inr x \<longrightarrow> getProp x ''reporter'' = JUndefined)
      \<and> getProp (processIssueForCsv issue config) ''Reporter'' = JStr []"
    using xml [OF _ xml_base_reporter]
    by (simp add: json_relations csv_relations jsOr_def userXml_def)
  have s: "resolution (issue_fields issue) = None \<longrightarrow>
      (\<forall>x. convertIssueToXml e issue config = Inr x \<longrightarrow> getProp x ''resolution'' = JUndefined)"
    using xml [OF _ xml_base_resolution] by simp
  from p a r s json_no_resolution csv_no_resolution show ?thesis
    by blast
qed

theorem absent_relations_witness:
  "priority (issue_fields bareIssue) = None \<and> assignee (issue_fields bareIssue) = None
   \<and> reporter (issue_fields bareIssue) = None \<and> resolution (issue_fields bareIssue) = None
   \<and> convertIssueToXml sampleEnv bareIssue (flagsOff ''xml'' []) = Inr (JObj (xmlIssueBase bareIssue (flagsOff ''xml'' [])))
   \<and> getProp (processIssueForJson bareIssue (flagsOff ''xml'' [])) ''priority'' = JNull
   \<and> getProp (processIssueForJson bareIssue (flagsOff ''xml'' [])) ''assignee'' = JNull
   \<and> getProp (processIssueForJson bareIssue (flagsOff ''xml'' [])) ''reporter'' = JNull
   \<and> getProp (JObj (xmlIssueBase bareIssue (flagsOff ''xml'' []))) ''priority'' = JUndefined
   \<and> getProp (JObj (xmlIssueBase bareIssue (flagsOff ''xml'' []))) ''assignee'' = JUndefined
   \<and> getProp (JObj (xmlIssueBase bareIssue (flagsOff ''xml'' []))) ''reporter'' = JUndefined
   \<and> getProp (JObj (xmlIssueBase bareIssue (flagsOff ''xml'' []))) ''resolution'' = JUndefined
   \<and> getProp (processIssueForCsv bareIssue (flagsOff ''xml'' [])) ''Priority'' = JStr []
   \<and> getProp (processIssueForCsv bareIssue (flagsOff ''xml'' [])) ''Assignee'' = JStr []
   \<and> getProp (processIssueForCsv bareIssue (flagsOff ''xml'' [])) ''Reporter'' = JStr []"
proof -
  have none: "priority (issue_fields bareIssue) = None" "assignee (issue_fields bareIssue) = None"
    "reporter (issue_fields bareIssue) = None" "resolution (issue_fields bareIssue) = None"
    by (simp_all add: bareIssue_def)
  from absent_relations [of bareIssue "flagsOff ''xml'' []" sampleEnv] none bare_xml
  show ?thesis
    by simp
qed

text \<open>
  C7 as stated fails for CSV: on an issue without priority, assignee and reporter the
  three columns hold the empty string.
\<close>

theorem absent_relations_counterexample:
  "priority (issue_fields bareIssue) = None
   \<and> assignee (issue_fields bareIssue) = None
   \<and> reporter (issue_fields bareIssue) = None
   \<and> getProp (processIssueForCsv bareIssue (flagsOff ''csv'' [])) ''Priority'' = JStr ''''
   \<and> getProp (processIssueForCsv bareIssue (flagsOff ''csv'' [])) ''Assignee'' = JStr ''''
   \<and> getProp (processIssueForCsv bareIssue (flagsOff ''csv'' [])) ''Reporter'' = JStr ''''"
  by (simp add: csv_relations jsOr_def bareIssue_def)

text \<open>
  C8, as amended. For an issue with a parent, whatever the flags: the JSON record has
  \<open>parent.key\<close> and \<open>parent.summary\<close>, the CSV row has \<open>Parent Key\<close> and
  \<open>Parent Summary\<close>, the XML record has \<open>parent\<close> with \<open>@_key\<close> and the
  summary as text. With the five flags off, the JSON record and the CSV row hold the core
  fields and the parent and nothing else; the XML record holds the core fields, the parent
  and, when the include-list selects a custom field present on the issue, a
  \<open>customfields\<close> block, which no flag gates.
\<close>

theorem parent_always_included:
  assumes "parent (issue_fields issue) = Some p"
  shows "getProp (getProp (processIssueForJson issue config) ''parent'') ''key'' = JStr (ref_key p)
     \<and> getProp (getProp (processIssueForJson issue config) ''parent'') ''summary'' = JStr (ref_summary p)
     \<and> getProp (processIssueForCsv issue config) ''Parent Key'' = JStr (ref_key p)
     \<and> getProp (processIssueForCsv issue config) ''Parent Summary'' = JStr (ref_summary p)
     \<and> (\<forall>x. convertIssueToXml e issue config = Inr x \<longrightarrow>
           getProp (getProp x ''parent'') ''@_key'' = JStr (ref_key p)
           \<and> getProp (getProp x ''parent'') ''#text'' = JStr (ref_summary p))
     \<and> (\<not> includeComments config \<and> \<not> includeAttachments config \<and> \<not> includeWorklog config
          \<and> \<not> includeSubtasks config \<and> \<not> includeLinks config \<longrightarrow>
           objKeys (processIssueForJson issue config) = jsonCoreKeys @ [''parent'']
           \<and> objKeys (processIssueForCsv issue config) = csvCoreKeys @ [''Parent Key'', ''Parent Summary'']
           \<and> (\<forall>x. convertIssueToXml e issue config = Inr x \<longrightarrow>
                 objKeys x = xmlCoreKeys @ [''parent'']
                   @ (if customFieldSelected issue config then [''customfields''] else [])))"
proof -
  have j: "getProp (getProp (processIssueForJson issue config) ''parent'') ''key'' = JStr (ref_key p)
     \<and> getProp (getProp (processIssueForJson issue config) ''parent'') ''summary'' = JStr (ref_summary p)"
    by (simp add: json_parent [OF assms])
  have x: "\<forall>x. convertIssueToXml e issue config = Inr x \<longrightarrow>
           getProp (getProp x ''parent'') ''@_key'' = JStr (ref_key p)
           \<and> getProp (getProp x ''parent'') ''#text'' = JStr (ref_summary p)"
    using getProp_base [OF _ xml_base_parent [OF assms]] by simp
  have k: "\<not> includeComments config \<and> \<not> includeAttachments config \<and> \<not> includeWorklog config
          \<and> \<not> includeSubtasks config \<and> \<not> includeLinks config \<longrightarrow>
           objKeys (processIssueForJson issue config) = jsonCoreKeys @ [''parent'']
           \<and> objKeys (processIssueForCsv issue config) = csvCoreKeys @ [''Parent Key'', ''Parent Summary'']
           \<and> (\<forall>x. convertIssueToXml e issue config = Inr x \<longrightarrow>
                 objKeys x = xmlCoreKeys @ [''parent'']
                   @ (if customFieldSelected issue config then [''customfields''] else []))"
    using assms by (simp add: json_keys csv_keys xml_keys xml_base_keys)
  from j csv_parent [OF assms] x k show ?thesis
    by blast
qed

theorem parent_always_included_witness:
  "parent (issue_fields childIssue) = Some sampleParent
   \<and> getProp (getProp (processIssueForJson childIssue (flagsOff ''xml'' [''customfield_10001''])) ''parent'') ''key'' = JStr ''PROJ-1''
   \<and> getProp (getProp (processIssueForJson childIssue (flagsOff ''xml'' [''customfield_10001''])) ''parent'') ''summary'' = JStr ''Parent''
   \<and> getProp (processIssueForCsv childIssue (flagsOff ''xml'' [''customfield_10001''])) ''Parent Key'' = JStr ''PROJ-1''
   \<and> getProp (processIssueForCsv childIssue (flagsOff ''xml'' [''customfield_10001''])) ''Parent Summary'' = JStr ''Parent''
   \<and> objKeys (processIssueForJson childIssue (flagsOff ''xml'' [''customfield_10001''])) = jsonCoreKeys @ [''parent'']
   \<and> objKeys (processIssueForCsv childIssue (flagsOff ''xml'' [''customfield_10001''])) = csvCoreKeys @ [''Parent Key'', ''Parent Summary'']
   \<and> objKeys (JObj (xmlIssueBase childIssue (flagsOff ''xml'' [''customfield_10001''])
                @ [(''customfields'', JObj [(''customfield_10001'', JArr [JStr ''x''])])]))
       = xmlCoreKeys @ [''parent'', ''customfields'']"
proof -
  have flags: "\<not> includeComments (flagsOff ''xml'' [''customfield_10001''])
      \<and> \<not> includeAttachments (flagsOff ''xml'' [''customfield_10001''])
      \<and> \<not> includeWorklog (flagsOff ''xml'' [''customfield_10001''])
      \<and> \<not> includeSubtasks (flagsOff ''xml'' [''customfield_10001''])
      \<and> \<not> includeLinks (flagsOff ''xml'' [''customfield_10001''])"
    by (simp add: flagsOff_def)
  have sp: "ref_key sampleParent = ''PROJ-1'' \<and> ref_summary sampleParent = ''Parent''"
    by (simp add: sampleParent_def)
  from parent_always_included [OF child_parent, of "flagsOff ''xml'' [''customfield_10001'']" sampleEnv]
    flags child_xml child_selected sp child_parent
  show ?thesis
    by simp
qed

text \<open>
  C8 as stated fails for XML: with the five flags off and \<open>customfield_10001\<close> in the
  include-list, the record of an issue that has a parent and that field holds the block
  \<open>customfields\<close> besides \<open>parent\<close>.
\<close>

theorem parent_always_included_counterexample:
  "\<not> includeComments (flagsOff ''xml'' [''customfield_10001''])
   \<and> \<not> includeAttachments (flagsOff ''xml'' [''customfield_10001''])
   \<and> \<not> includeWorklog (flagsOff ''xml'' [''customfield_10001''])
   \<and> \<not> includeSubtasks (flagsOff ''xml'' [''customfield_10001''])
   \<and> \<not> includeLinks (flagsOff ''xml'' [''customfield_10001''])
   \<and> parent (issue_fields childIssue) = Some sampleParent
   \<and> \<not> isl (convertIssueToXml sampleEnv childIssue (flagsOff ''xml'' [''customfield_10001'']))
   \<and> objKeys (projr (convertIssueToXml sampleEnv childIssue (flagsOff ''xml'' [''customfield_10001''])))
       = [''@_id'', ''title'', ''link'', ''project-key'', ''description'', ''environment'',
          ''key'', ''summary'', ''type'', ''priority'', ''status'', ''resolution'', ''assignee'',
          ''reporter'', ''created'', ''updated'', ''resolved'', ''version'', ''fix-version'',
          ''component'', ''labels'', ''due-date'', ''parent'', ''customfields'']
   \<and> getProp (projr (convertIssueToXml sampleEnv childIssue (flagsOff ''xml'' [''customfield_10001''])))
         ''customfields''
       = JObj [(''customfield_10001'', JArr [JStr ''x''])]"
  by (simp add: child_xml child_parent child_base_keys xml_base_no_customfields map_add_def)
     (simp add: flagsOff_def xmlCoreKeys_def)

text \<open>
  C3, as amended. Only the XML projection surfaces custom fields. For a key of the
  include-list that starts with \<open>customfield_\<close> and whose value on the issue is
  neither \<open>undefined\<close> nor \<open>null\<close>, the XML record holds under
  \<open>customfields\<close> the normalized value; the JSON record and the CSV row have no such
  key. The normalization is the one rule of \<open>normalizeCustomField\<close>: an array is mapped
  element-wise, an object is reduced by trying \<open>value\<close>, then \<open>name\<close>, then
  \<open>displayName\<close>, falling back to its JSON text, and a scalar passes through unchanged.
  At top level the first of the three properties that is not \<open>undefined\<close> is taken;
  inside an array the first that is truthy, and an element that is no object stays as it
  is. So an array of objects with a truthy \<open>value\<close>, such as \<open>[{value: "x"}]\<close>,
  gives the array of those values.
\<close>

theorem custom_field_projection:
  "(\<forall>x. convertIssueToXml e issue config = Inr x \<longrightarrow> k \<in> set (includeFields config) \<longrightarrow>
       startsWith k ''customfield_'' \<longrightarrow> fieldAt (issue_fields issue) k \<noteq> JUndefined \<longrightarrow>
       fieldAt (issue_fields issue) k \<noteq> JNull \<longrightarrow>
       normalizeCustomField e (fieldAt (issue_fields issue) k) = Inr (getProp (getProp x ''customfields'') k))
   \<and> (startsWith k ''customfield_'' \<longrightarrow>
         k \<notin> set (objKeys (processIssueForJson issue config))
         \<and> k \<notin> set (objKeys (processIssueForCsv issue config)))
   \<and> (\<not> typeofObject v \<longrightarrow> normalizeCustomField e v = Inr v)
   \<and> ((\<forall>i\<in>set items. typeofObject i \<and> truthy (getProp i ''value'')) \<longrightarrow>
         normalizeCustomField e (JArr items) = Inr (JArr (map (\<lambda>i. getProp i ''value'') items)))
   \<and> normalizeCustomField e (JArr items) =
       (case mapE (\<lambda>item. if typeofObject item \<and> item \<noteq> JNull then
                              (if truthy (getProp item ''value'') then Inr (getProp item ''value'')
                               else if truthy (getProp item ''name'') then Inr (getProp item ''name'')
                               else if truthy (getProp item ''displayName'') then Inr (getProp item ''displayName'')
                               else jsonStringify e item)
                            else Inr item) items of
          Inl x \<Rightarrow> Inl x | Inr ys \<Rightarrow> Inr (JArr ys))
   \<and> normalizeCustomField e (JObj kvs) =
       (if getProp (JObj kvs) ''value'' \<noteq> JUndefined then Inr (getProp (JObj kvs) ''value'')
        else if getProp (JObj kvs) ''name'' \<noteq> JUndefined then Inr (getProp (JObj kvs) ''name'')
        else if getProp (JObj kvs) ''displayName'' \<noteq> JUndefined then Inr (getProp (JObj kvs) ''displayName'')
        else jsonStringify e (JObj kvs))
   \<and> normalizeCustomField e (JStr s) = Inr (JStr s)
   \<and> normalizeCustomField e (JNum r) = Inr (JNum r)
   \<and> normalizeCustomField e (JBool b) = Inr (JBool b)
   \<and> normalizeCustomField e
         (JArr [JObj [(''displayName'', JStr ''d''), (''name'', JStr ''n''), (''value'', JStr ''x'')],
                JStr ''s'',
                JObj [(''displayName'', JStr ''d''), (''name'', JStr ''n'')],
                JObj [(''displayName'', JStr ''d'')],
                JNum 3, JBool False, JNull]) =
       Inr (JArr [JStr ''x'', JStr ''s'', JStr ''n'', JStr ''d'', JNum 3, JBool False, JNull])
   \<and> normalizeCustomField e (JArr [JObj [(''id'', JStr ''7'')], JStr ''s'']) =
       (case jsonStringify e (JObj [(''id'', JStr ''7'')]) of
          Inl x \<Rightarrow> Inl x | Inr t \<Rightarrow> Inr (JArr [t, JStr ''s'']))
   \<and> normalizeCustomField e
         (JObj [(''displayName'', JStr ''d''), (''name'', JStr ''n''), (''value'', JStr ''x'')]) =
       Inr (JStr ''x'')
   \<and> normalizeCustomField e (JObj [(''displayName'', JStr ''d''), (''name'', JStr ''n'')]) =
       Inr (JStr ''n'')
   \<and> normalizeCustomField e (JObj [(''displayName'', JStr ''d'')]) = Inr (JStr ''d'')
   \<and> normalizeCustomField e (JObj [(''id'', JStr ''7'')]) = jsonStringify e (JObj [(''id'', JStr ''7'')])"
proof -
  have a: "\<forall>x. convertIssueToXml e issue config = Inr x \<longrightarrow> k \<in> set (includeFields config) \<longrightarrow>
       startsWith k ''customfield_'' \<longrightarrow> fieldAt (issue_fields issue) k \<noteq> JUndefined \<longrightarrow>
       fieldAt (issue_fields issue) k \<noteq> JNull \<longrightarrow>
       normalizeCustomField e (fieldAt (issue_fields issue) k) = Inr (getProp (getProp x ''customfields'') k)"
    using xml_custom_field by blast
  have b: "startsWith k ''customfield_'' \<longrightarrow>
         k \<notin> set (objKeys (processIssueForJson issue config))
         \<and> k \<notin> set (objKeys (processIssueForCsv issue config))"
    using json_no_custom csv_no_custom by blast
  have c: "\<not> typeofObject v \<longrightarrow> normalizeCustomField e v = Inr v"
    using normalize_scalar by blast
  have d: "(\<forall>i\<in>set items. typeofObject i \<and> truthy (getProp i ''value'')) \<longrightarrow>
         normalizeCustomField e (JArr items) = Inr (JArr (map (\<lambda>i. getProp i ''value'') items))"
  proof
    assume "\<forall>i\<in>set items. typeofObject i \<and> truthy (getProp i ''value'')"
    then have "mapE (normalizeItem e) items = Inr (map (\<lambda>i. getProp i ''value'') items)"
      by (intro mapE_value_objects) blast
    then show "normalizeCustomField e (JArr items) = Inr (JArr (map (\<lambda>i. getProp i ''value'') items))"
      by (simp add: normalizeCustomField_def)
  qed
  have arr: "normalizeCustomField e (JArr items) =
       (case mapE (\<lambda>item. if typeofObject item \<and> item \<noteq> JNull then
                              (if truthy (getProp item ''value'') then Inr (getProp item ''value'')
                               else if truthy (getProp item ''name'') then Inr (getProp item ''name'')
                               else if truthy (getProp item ''displayName'') then Inr (getProp item ''displayName'')
                               else jsonStringify e item)
                            else Inr item) items of
          Inl x \<Rightarrow> Inl x | Inr ys \<Rightarrow> Inr (JArr ys))"
    by (simp add: normalizeCustomField_def normalizeItem_def [abs_def])
  have obj: "normalizeCustomField e (JObj kvs) =
       (if getProp (JObj kvs) ''value'' \<noteq> JUndefined then Inr (getProp (JObj kvs) ''value'')
        else if getProp (JObj kvs) ''name'' \<noteq> JUndefined then Inr (getProp (JObj kvs) ''name'')
        else if getProp (JObj kvs) ''displayName'' \<noteq> JUndefined then Inr (getProp (JObj kvs) ''displayName'')
        else jsonStringify e (JObj kvs))"
    by (simp add: normalizeCustomField_def)
  have scalar: "normalizeCustomField e (JStr s) = Inr (JStr s)
      \<and> normalizeCustomField e (JNum r) = Inr (JNum r)
      \<and> normalizeCustomField e (JBool b) = Inr (JBool b)"
    by (simp add: normalizeCustomField_def)
  have mixed: "normalizeCustomField e
         (JArr [JObj [(''displayName'', JStr ''d''), (''name'', JStr ''n''), (''value'', JStr ''x'')],
                JStr ''s'',
                JObj [(''displayName'', JStr ''d''), (''name'', JStr ''n'')],
                JObj [(''displayName'', JStr ''d'')],
                JNum 3, JBool False, JNull]) =
       Inr (JArr [JStr ''x'', JStr ''s'', JStr ''n'', JStr ''d'', JNum 3, JBool False, JNull])"
    by (simp add: normalizeCustomField_def normalizeItem_def)
  have fallback: "normalizeCustomField e (JArr [JObj [(''id'', JStr ''7'')], JStr ''s'']) =
       (case jsonStringify e (JObj [(''id'', JStr ''7'')]) of
          Inl x \<Rightarrow> Inl x | Inr t \<Rightarrow> Inr (JArr [t, JStr ''s'']))"
    by (simp add: normalizeCustomField_def normalizeItem_def split: sum.splits)
  have top: "normalizeCustomField e
         (JObj [(''displayName'', JStr ''d''), (''name'', JStr ''n''), (''value'', JStr ''x'')]) =
       Inr (JStr ''x'')
     \<and> normalizeCustomField e (JObj [(''displayName'', JStr ''d''), (''name'', JStr ''n'')]) =
       Inr (JStr ''n'')
     \<and> normalizeCustomField e (JObj [(''displayName'', JStr ''d'')]) = Inr (JStr ''d'')
     \<and> normalizeCustomField e (JObj [(''id'', JStr ''7'')]) = jsonStringify e (JObj [(''id'', JStr ''7'')])"
    by (simp add: normalizeCustomField_def)
  from a b c d arr obj scalar mixed fallback top show ?thesis
    by (intro conjI) (simp_all only: simp_thms)
qed

theorem custom_field_projection_witness:
  "convertIssueToXml sampleEnv childIssue (flagsOff ''xml'' [''customfield_10001'']) =
     Inr (JObj (xmlIssueBase childIssue (flagsOff ''xml'' [''customfield_10001''])
                @ [(''customfields'', JObj [(''customfield_10001'', JArr [JStr ''x''])])]))
   \<and> fieldAt (issue_fields childIssue) ''customfield_10001'' = JArr [JObj [(''value'', JStr ''x'')]]
   \<and> normalizeCustomField sampleEnv (JArr [JObj [(''value'', JStr ''x'')]]) = Inr (JArr [JStr ''x''])
   \<and> ''customfield_10001'' \<notin> set (objKeys (processIssueForJson childIssue (flagsOff ''xml'' [''customfield_10001''])))
   \<and> ''customfield_10001'' \<notin> set (objKeys (processIssueForCsv childIssue (flagsOff ''xml'' [''customfield_10001''])))
   \<and> normalizeCustomField sampleEnv (JStr ''x'') = Inr (JStr ''x'')
   \<and> normalizeCustomField sampleEnv (JObj [(''name'', JStr ''n'')]) = Inr (JStr ''n'')"
proof -
  have f: "fieldAt (issue_fields childIssue) ''customfield_10001'' = JArr [JObj [(''value'', JStr ''x'')]]"
    by (simp add: childIssue_def fieldAt_def)
  have h: "''customfield_10001'' \<in> set (includeFields (flagsOff ''xml'' [''customfield_10001'']))
      \<and> startsWith ''customfield_10001'' ''customfield_''"
    by (simp add: flagsOff_def startsWith_def)
  have i: "\<forall>i\<in>set [JObj [(''value'', JStr ''x'')]]. typeofObject i \<and> truthy (getProp i ''value'')"
    by simp
  from custom_field_projection [of sampleEnv childIssue "flagsOff ''xml'' [''customfield_10001'']"
      "''customfield_10001''" "JStr ''x''" "[JObj [(''value'', JStr ''x'')]]" "[(''name'', JStr ''n'')]"]
    child_xml f h i
  show ?thesis
    by (simp add: map_add_def xml_base_no_customfields)
qed

text \<open>
  C3 as stated fails for JSON and CSV: with \<open>customfield_10001\<close> in the include-list
  and present on the issue, neither the JSON record nor the CSV row has a key for it.
  And the reduction of an object depends on where it stands: \<open>{value: "", name: "n"}\<close>
  is reduced to its \<open>value\<close>, the empty string, at top level, and to its \<open>name\<close>
  as an element of an array.
\<close>

theorem custom_field_projection_counterexample:
  "fieldAt (issue_fields childIssue) ''customfield_10001'' = JArr [JObj [(''value'', JStr ''x'')]]
   \<and> includeFields (flagsOff ''json'' [''customfield_10001'']) = [''customfield_10001'']
   \<and> objKeys (processIssueForJson childIssue (flagsOff ''json'' [''customfield_10001''])) =
       [''id'', ''key'', ''self'', ''summary'', ''description'', ''issueType'', ''project'',
        ''status'', ''priority'', ''assignee'', ''reporter'', ''created'', ''updated'',
        ''resolutionDate'', ''dueDate'', ''labels'', ''components'', ''fixVersions'', ''versions'',
        ''parent'']
   \<and> objKeys (processIssueForCsv childIssue (flagsOff ''csv'' [''customfield_10001''])) =
       [''Issue ID'', ''Issue Key'', ''Summary'', ''Description'', ''Issue Type'',
        ''Project Key'', ''Project Name'', ''Status'', ''Priority'', ''Assignee'', ''Reporter'',
        ''Created'', ''Updated'', ''Resolution Date'', ''Due Date'', ''Labels'', ''Components'',
        ''Fix Versions'', ''Versions'', ''Parent Key'', ''Parent Summary'']
   \<and> normalizeCustomField sampleEnv (JObj [(''value'', JStr []), (''name'', JStr ''n'')]) = Inr (JStr [])
   \<and> normalizeCustomField sampleEnv (JArr [JObj [(''value'', JStr []), (''name'', JStr ''n'')]]) =
       Inr (JArr [JStr ''n''])"
  by (simp add: json_keys csv_keys child_parent jsonCoreKeys_def csvCoreKeys_def
        normalizeCustomField_def normalizeItem_def)
     (simp add: flagsOff_def childIssue_def fieldAt_def)

text \<open>
  C10. \<open>normalizeCustomField\<close> reduces an object inside an array by truthiness
  (the first truthy of \<open>value\<close>, \<open>name\<close>, \<open>displayName\<close>, else the JSON text)
  and an object at top level by \<open>!== undefined\<close>. So \<open>{value: ""}\<close> gives
  \<open>""\<close> at top level and its JSON text inside an array, and
  \<open>{value: "", name: "n"}\<close> gives \<open>""\<close> at top level and \<open>"n"\<close> inside an
  array.
\<close>

theorem normalize_truthy_in_array_defined_at_top:
  "normalizeCustomField e (JArr [JObj kvs]) =
     (if truthy (getProp (JObj kvs) ''value'') then Inr (JArr [getProp (JObj kvs) ''value''])
      else if truthy (getProp (JObj kvs) ''name'') then Inr (JArr [getProp (JObj kvs) ''name''])
      else if truthy (getProp (JObj kvs) ''displayName'') then Inr (JArr [getProp (JObj kvs) ''displayName''])
      else (case jsonStringify e (JObj kvs) of Inl x \<Rightarrow> Inl x | Inr s \<Rightarrow> Inr (JArr [s])))
   \<and> normalizeCustomField e (JObj kvs) =
     (if getProp (JObj kvs) ''value'' \<noteq> JUndefined then Inr (getProp (JObj kvs) ''value'')
      else if getProp (JObj kvs) ''name'' \<noteq> JUndefined then Inr (getProp (JObj kvs) ''name'')
      else if getProp (JObj kvs) ''displayName'' \<noteq> JUndefined then Inr (getProp (JObj kvs) ''displayName'')
      else jsonStringify e (JObj kvs))
   \<and> normalizeCustomField e (JObj [(''value'', JStr '''')]) = Inr (JStr '''')
   \<and> normalizeCustomField e (JArr [JObj [(''value'', JStr '''')]]) =
       (case jsonStringify e (JObj [(''value'', JStr '''')]) of Inl x \<Rightarrow> Inl x | Inr s \<Rightarrow> Inr (JArr [s]))
   \<and> normalizeCustomField e (JObj [(''value'', JStr ''''), (''name'', JStr ''n'')]) = Inr (JStr '''')
   \<and> normalizeCustomField e (JArr [JObj [(''value'', JStr ''''), (''name'', JStr ''n'')]]) = Inr (JArr [JStr ''n''])"
  by (simp add: normalizeCustomField_def normalizeItem_def split: sum.splits)

text \<open>
  C6, as amended. With no issue and the format \<open>csv\<close> the export returns normally:
  it hands the empty array to \<open>Papa.unparse\<close> and saves the text that call returns
  as the one artifact, of type \<open>text/csv\<close>. The core columns that open every row of
  \<open>processIssueForCsv\<close> number 19.
\<close>

theorem empty_csv_export:
  assumes "format config = ''csv''" and "papaUnparse e [] = Inr csv"
  shows "export e [] config onProgress =
     ((if onProgress
       then [startEvent e 0 ''csv'',
             mkEvent e 0 0 0 Processing ''Preparing CSV export...'',
             mkEvent e 0 0 100 Exporting ''Generating CSV...'',
             mkEvent e 0 0 100 Complete ''CSV export complete'']
       else []),
      [\<lparr>art_content = csv, art_filename = exportFilename e ''.csv'',
        art_mimeType = ''text/csv;charset=utf-8''\<rparr>],
      Inr ())
   \<and> take 19 (objKeys (processIssueForCsv issue rowConfig)) = csvCoreKeys
   \<and> length csvCoreKeys = 19"
proof -
  from assms have "export e [] config onProgress =
     ((if onProgress
       then [startEvent e 0 ''csv'',
             mkEvent e 0 0 0 Processing ''Preparing CSV export...'',
             mkEvent e 0 0 100 Exporting ''Generating CSV...'',
             mkEvent e 0 0 100 Complete ''CSV export complete'']
       else []),
      [\<lparr>art_content = csv, art_filename = exportFilename e ''.csv'',
        art_mimeType = ''text/csv;charset=utf-8''\<rparr>],
      Inr ())"
    by (simp add: export_def exportCsv_def emit_def mkEvent_def Let_def)
  then show ?thesis
    by (simp add: csv_core_prefix) (simp add: csvCoreKeys_def)
qed

theorem empty_csv_export_witness:
  "format (flagsOff ''csv'' []) = ''csv''
   \<and> papaUnparse sampleEnv [] = Inr []
   \<and> export sampleEnv [] (flagsOff ''csv'' []) False =
       ([], [\<lparr>art_content = [], art_filename = ''jira-export-2024-01-02.csv'',
               art_mimeType = ''text/csv;charset=utf-8''\<rparr>], Inr ())
   \<and> take 19 (objKeys (processIssueForCsv bareIssue (flagsOff ''csv'' []))) = csvCoreKeys"
proof -
  have h: "format (flagsOff ''csv'' []) = ''csv''" "papaUnparse sampleEnv [] = Inr []"
    by (simp_all add: flagsOff_def sampleEnv_def papaUnparseModel_def)
  from empty_csv_export [OF h, of False bareIssue "flagsOff ''csv'' []"] h show ?thesis
    by (simp add: sample_filename)
qed

text \<open>
  C6 as stated fails: a row has 19 core columns, not 18; and since \<open>Papa.unparse\<close>
  takes the columns from the first row, the text saved for an empty issue list is empty.
\<close>

theorem empty_csv_export_counterexample:
  "length (objKeys (processIssueForCsv bareIssue (flagsOff ''csv'' []))) = 19
   \<and> objKeys (processIssueForCsv bareIssue (flagsOff ''csv'' [])) =
       [''Issue ID'', ''Issue Key'', ''Summary'', ''Description'', ''Issue Type'',
        ''Project Key'', ''Project Name'', ''Status'', ''Priority'', ''Assignee'', ''Reporter'',
        ''Created'', ''Updated'', ''Resolution Date'', ''Due Date'', ''Labels'', ''Components'',
        ''Fix Versions'', ''Versions'']
   \<and> fst (snd (export sampleEnv [] (flagsOff ''csv'' []) True)) =
       [\<lparr>art_content = [], art_filename = ''jira-export-2024-01-02.csv'',
         art_mimeType = ''text/csv;charset=utf-8''\<rparr>]"
  by (simp add: empty_csv_run csv_keys csvCoreKeys_def) (simp add: bareIssue_def flagsOff_def)

end
